theory Spec2Isabelle
  imports Main "HOL-Library.Sublist"
begin

section \<open>Shared data model\<close>

text \<open>
  The repository holds several generations of \<^verbatim>\<open>app.js\<close>. Three of them aggregate
  articles over the network and cache them:
  \<^item> the single-query generation (\<^verbatim>\<open>fetchHN\<close>, \<^verbatim>\<open>fetchArticles\<close>, \<^verbatim>\<open>loadArticles\<close>,
    cache key \<^verbatim>\<open>aipulse_cache_v2\<close>), suffix \<open>_v2\<close> below where a name is shared;
  \<^item> the multi-query generation (\<^verbatim>\<open>fetchOne\<close>, \<^verbatim>\<open>fetchAll\<close>, \<^verbatim>\<open>load\<close>, cache key
    \<^verbatim>\<open>aipulse_cache_v3\<close>), suffix \<open>_v3\<close>;
  \<^item> the two-source generation (\<^verbatim>\<open>fetchDevTo\<close>, \<^verbatim>\<open>fetchHN\<close>, \<^verbatim>\<open>merge\<close>, \<^verbatim>\<open>load\<close>, cache key
    \<^verbatim>\<open>aipulse_v4\<close>), suffix \<open>_v4\<close>.
  Exceptions are values of type \<open>error\<close>; a function that may throw returns
  \<open>error + 'a\<close>. Global variables, the DOM, the local storage and the log of
  network requests are fields of one state record that every operation takes and
  returns. \<^verbatim>\<open>Date.now()\<close> is an explicit argument.
\<close>

datatype error = FetchError | TypeError | SyntaxError

text \<open>
  What one HTTP request settles to. \<open>Failed\<close>: the promise rejects, the status is
  not ok, or the body is not JSON. \<open>Ok p\<close>: the body parses, and \<open>p\<close> is the value the
  code goes on to iterate over (\<^verbatim>\<open>json.hits || []\<close> turns a missing list into the empty
  one): an array, or a truthy value that is no array, with no \<^verbatim>\<open>length\<close> and no
  \<^verbatim>\<open>filter\<close>, whose iteration raises a TypeError.
\<close>

datatype 'a payload = NotArray | Array "'a list"

datatype 'a response = Failed | Ok "'a payload"

text \<open>
  The requests the three generations issue: an Algolia search with a time window
  in days, an Algolia search without one, and a dev.to tag listing.
\<close>

datatype request = HNQuery string nat | HNPlain string | DevToTag string

text \<open>An Algolia hit as the code reads it; a field the JSON lacks is \<open>None\<close>.\<close>

record hit =
  objectID :: string
  title :: "string option"
  url :: "string option"
  points :: "int option"
  num_comments :: "int option"
  created_at_i :: int

text \<open>\<^verbatim>\<open>hit.title\<close> in a condition: undefined, null and the empty string are falsy.\<close>

definition truthy :: "string option \<Rightarrow> bool" where
  "truthy t = (case t of None \<Rightarrow> False | Some s \<Rightarrow> s \<noteq> [])"

text \<open>\<^verbatim>\<open>h.points || 0\<close>\<close>

definition score :: "hit \<Rightarrow> int" where
  "score h = (case points h of None \<Rightarrow> 0 | Some p \<Rightarrow> p)"

text \<open>
  \<^verbatim>\<open>xs.sort((a, b) => f(b) - f(a))\<close>: \<^verbatim>\<open>Array.prototype.sort\<close> is a stable sort, and
  the comparator orders by descending \<open>f\<close>. The stable sort of a list by a key is
  unique, so the library's stable insertion sort on the negated key computes it.
\<close>

definition sort_desc :: "('a \<Rightarrow> int) \<Rightarrow> 'a list \<Rightarrow> 'a list" where
  "sort_desc f xs = sort_key (\<lambda>a. - f a) xs"

text \<open>
  A loop that keeps an element when its key is not in the \<^verbatim>\<open>seen\<close> set and then adds
  the key: \<^verbatim>\<open>hits.filter(h => { if (seen.has(k)) return false; seen.add(k); return true; })\<close>
  and \<^verbatim>\<open>for (const a of xs) { if (!seen.has(k)) { seen.add(k); all.push(a); } }\<close>.
\<close>

fun dedupe :: "('a \<Rightarrow> 'k) \<Rightarrow> 'k set \<Rightarrow> 'a list \<Rightarrow> 'a list" where
  "dedupe key seen [] = []"
| "dedupe key seen (x # xs) =
     (if key x \<in> seen then dedupe key seen xs
      else x # dedupe key (insert (key x) seen) xs)"

section \<open>Cache store\<close>

record 'a entry =
  ts :: int
  articles :: "'a list"

text \<open>
  \<^verbatim>\<open>localStorage.getItem(CACHE_KEY)\<close>: no item, a string that \<^verbatim>\<open>JSON.parse\<close> rejects, or
  the object that \<^verbatim>\<open>saveCache\<close> wrote, a map from filter name to entry.
\<close>

datatype 'a blob = NoItem | Corrupt | Stored "string \<Rightarrow> 'a entry option"

definition CACHE_TTL :: int where
  "CACHE_TTL = 60 * 60 * 1000"

text \<open>\<^verbatim>\<open>JSON.parse(localStorage.getItem(CACHE_KEY) || '{}')\<close>\<close>

definition parse_blob :: "'a blob \<Rightarrow> error + (string \<Rightarrow> 'a entry option)" where
  "parse_blob b =
     (case b of NoItem \<Rightarrow> Inr (\<lambda>k. None) | Corrupt \<Rightarrow> Inl SyntaxError | Stored m \<Rightarrow> Inr m)"

text \<open>
  \<^verbatim>\<open>loadCache(filter)\<close>, the same in the three generations. The \<^verbatim>\<open>try\<close> body first; the
  \<^verbatim>\<open>catch { return null; }\<close> makes the function total.
\<close>

definition loadCache_try :: "'a blob \<Rightarrow> int \<Rightarrow> string \<Rightarrow> error + 'a list option" where
  "loadCache_try b now flt =
     (case parse_blob b of
        Inl e \<Rightarrow> Inl e
      | Inr cache \<Rightarrow>
          (case cache flt of
             None \<Rightarrow> Inr None
           | Some entry \<Rightarrow>
               if now - ts entry > CACHE_TTL then Inr None else Inr (Some (articles entry))))"

definition loadCache :: "'a blob \<Rightarrow> int \<Rightarrow> string \<Rightarrow> 'a list option" where
  "loadCache b now flt =
     (case loadCache_try b now flt of Inl e \<Rightarrow> None | Inr r \<Rightarrow> r)"

text \<open>
  \<^verbatim>\<open>saveCache(filter, articles)\<close>: a blob that does not parse and a \<^verbatim>\<open>setItem\<close> that
  throws (\<open>writable\<close> false) both end in the empty \<^verbatim>\<open>catch\<close>, the storage unchanged.
  The single-query generation also stores the filter name in the entry; nothing reads it.
\<close>

definition saveCache :: "'a blob \<Rightarrow> bool \<Rightarrow> int \<Rightarrow> string \<Rightarrow> 'a list \<Rightarrow> 'a blob" where
  "saveCache b writable now flt arts =
     (case parse_blob b of
        Inl e \<Rightarrow> b
      | Inr cache \<Rightarrow>
          if writable then Stored (cache(flt \<mapsto> \<lparr>ts = now, articles = arts\<rparr>)) else b)"

text \<open>\<^verbatim>\<open>cached && cached.length > 0\<close>: the list when the condition holds.\<close>

definition usable :: "'a list option \<Rightarrow> 'a list option" where
  "usable c = (case c of None \<Rightarrow> None | Some xs \<Rightarrow> if xs = [] then None else Some xs)"

section \<open>Application state and rendering\<close>

datatype empty_msg =
    NoArticlesFound      \<comment> \<open>the empty state of \<^verbatim>\<open>finish\<close> / \<^verbatim>\<open>finishRender\<close>\<close>
  | FetchFailed          \<comment> \<open>the empty state of the \<^verbatim>\<open>catch\<close> branch without cache\<close>
  | CouldNotLoad         \<comment> \<open>the empty state after an empty broader fallback\<close>

datatype notice =
    ShowingCached        \<comment> \<open>"... showing cached articles."\<close>
  | CannotLoad           \<comment> \<open>"Could not load articles. Check your connection and try again."\<close>
  | LimitedResults       \<comment> \<open>"Limited results for this filter ... showing broader AI articles."\<close>

datatype 'a node = Skeleton | Card 'a | EmptyState empty_msg

datatype counter = LoadingText | NArticles nat

datatype stamp = NoStamp | FromCache | UpdatedNow

record 'a app =
  allArticles :: "'a list"
  displayedCount :: nat
  currentFilter :: string
  isLoading :: bool
  grid :: "'a node list"
  articleCount :: counter
  lastUpdated :: stamp
  loadMoreShown :: bool
  errorBanner :: "notice option"
  storage :: "'a blob"
  quota_ok :: bool
  requests :: "request list"

definition PAGE_SIZE :: nat where
  "PAGE_SIZE = 18"

definition showSkeletons :: "'a app \<Rightarrow> 'a app" where
  "showSkeletons st = st\<lparr>grid := replicate 6 Skeleton\<rparr>"

definition renderPage :: "'a app \<Rightarrow> 'a app" where
  "renderPage st =
     (let slice = take PAGE_SIZE (drop (displayedCount st) (allArticles st));
          shown = displayedCount st + length slice
      in st\<lparr>grid := grid st @ map Card slice,
            displayedCount := shown,
            loadMoreShown := (shown < length (allArticles st))\<rparr>)"

definition showError :: "notice \<Rightarrow> 'a app \<Rightarrow> 'a app" where
  "showError msg st = st\<lparr>errorBanner := Some msg\<rparr>"

text \<open>\<^verbatim>\<open>finish(fromCache)\<close>, called \<^verbatim>\<open>finishRender\<close> in the single-query generation.\<close>

definition finish :: "bool \<Rightarrow> 'a app \<Rightarrow> 'a app" where
  "finish fromCache st =
     (if allArticles st = []
      then st\<lparr>grid := [EmptyState NoArticlesFound], articleCount := NArticles 0\<rparr>
      else (renderPage (st\<lparr>grid := []\<rparr>))
             \<lparr>articleCount := NArticles (length (allArticles st)),
              lastUpdated := (if fromCache then FromCache else UpdatedNow)\<rparr>)"

text \<open>The cache write of a state, at the clock value \<open>now\<close>.\<close>

definition store_articles :: "int \<Rightarrow> string \<Rightarrow> 'a list \<Rightarrow> 'a app \<Rightarrow> 'a app" where
  "store_articles now flt arts st =
     st\<lparr>storage := saveCache (storage st) (quota_ok st) now flt arts\<rparr>"

text \<open>The statements every load starts with, before the cache is consulted.\<close>

definition begin_load :: "string \<Rightarrow> 'a app \<Rightarrow> 'a app" where
  "begin_load flt st =
     showSkeletons (st\<lparr>currentFilter := flt, displayedCount := 0,
                      loadMoreShown := False, errorBanner := None\<rparr>)
       \<lparr>articleCount := LoadingText, lastUpdated := NoStamp\<rparr>"

section \<open>Single-query generation\<close>

definition MAX_RESULTS :: nat where
  "MAX_RESULTS = 60"

definition TOPIC_QUERIES_all :: string where
  "TOPIC_QUERIES_all = ''artificial intelligence OR machine learning OR LLM OR GPT OR neural network''"

definition TOPIC_QUERIES :: "string \<Rightarrow> string option" where
  "TOPIC_QUERIES flt =
     map_of
       [(''all'', TOPIC_QUERIES_all),
        (''llm'', ''LLM large language model ChatGPT Claude GPT''),
        (''research'', ''AI research machine learning paper arxiv''),
        (''openai'', ''OpenAI GPT ChatGPT Sora''),
        (''google'', ''Google DeepMind Gemini Bard''),
        (''robotics'', ''AI robotics autonomous robot''),
        (''opensource'', ''open source AI model Llama Mistral HuggingFace'')] flt"

text \<open>\<^verbatim>\<open>TOPIC_QUERIES[filter] || TOPIC_QUERIES.all\<close>\<close>

definition query_of :: "string \<Rightarrow> string" where
  "query_of flt = (case TOPIC_QUERIES flt of Some q \<Rightarrow> q | None \<Rightarrow> TOPIC_QUERIES_all)"

text \<open>\<^verbatim>\<open>fetchHN(query, daysBack)\<close>: throws unless the response is ok.\<close>

definition fetchHN_v2 :: "(request \<Rightarrow> hit response) \<Rightarrow> string \<Rightarrow> nat \<Rightarrow> error + hit payload" where
  "fetchHN_v2 net query daysBack =
     (case net (HNQuery query daysBack) of
        Failed \<Rightarrow> Inl FetchError
      | Ok p \<Rightarrow> Inr p)"

text \<open>
  The tail of \<^verbatim>\<open>fetchArticles\<close>: deduplicate by \<^verbatim>\<open>objectID\<close>, sort by points descending,
  keep the first \<^verbatim>\<open>MAX_RESULTS\<close>.
\<close>

definition rank_v2 :: "hit list \<Rightarrow> hit list" where
  "rank_v2 hits = take MAX_RESULTS (sort_desc score (dedupe objectID {} hits))"

text \<open>
  \<^verbatim>\<open>fetchArticles(filter)\<close>, with the requests it issued. A \<^verbatim>\<open>hits\<close> value that is no
  array has no \<^verbatim>\<open>length\<close> (the comparison with 5 is false) and no \<^verbatim>\<open>filter\<close> method
  (TypeError).
\<close>

definition fetchArticles :: "(request \<Rightarrow> hit response) \<Rightarrow> string \<Rightarrow> request list \<times> (error + hit list)" where
  "fetchArticles net flt =
     (let query = query_of flt
      in case fetchHN_v2 net query 1 of
           Inl e \<Rightarrow> ([HNQuery query 1], Inl e)
         | Inr NotArray \<Rightarrow> ([HNQuery query 1], Inl TypeError)
         | Inr (Array hits) \<Rightarrow>
             if length hits < 5
             then (case fetchHN_v2 net query 3 of
                     Inl e \<Rightarrow> ([HNQuery query 1, HNQuery query 3], Inl e)
                   | Inr NotArray \<Rightarrow> ([HNQuery query 1, HNQuery query 3], Inl TypeError)
                   | Inr (Array hits3) \<Rightarrow> ([HNQuery query 1, HNQuery query 3], Inr (rank_v2 hits3)))
             else ([HNQuery query 1], Inr (rank_v2 hits)))"

text \<open>
  \<^verbatim>\<open>loadArticles(filter, forceRefresh)\<close>. \<open>t0\<close> is the clock when the cache is first
  consulted, \<open>t1\<close> the clock after the awaited fetch (read by \<^verbatim>\<open>saveCache\<close> or by the
  \<^verbatim>\<open>loadCache\<close> of the \<^verbatim>\<open>catch\<close> branch). An array is truthy even when empty.
\<close>

definition loadArticles ::
  "(request \<Rightarrow> hit response) \<Rightarrow> int \<Rightarrow> int \<Rightarrow> string \<Rightarrow> bool \<Rightarrow> hit app \<Rightarrow> hit app" where
  "loadArticles net t0 t1 flt forceRefresh st =
     (let st1 = begin_load flt st;
          cached = (if forceRefresh then None else loadCache (storage st1) t0 flt)
      in case cached of
           Some c \<Rightarrow> finish True (st1\<lparr>allArticles := c\<rparr>)
         | None \<Rightarrow>
             (let (reqs, r) = fetchArticles net flt;
                  st2 = st1\<lparr>requests := requests st1 @ reqs\<rparr>
              in case r of
                   Inr arts \<Rightarrow>
                     finish False (store_articles t1 flt arts (st2\<lparr>allArticles := arts\<rparr>))
                 | Inl e \<Rightarrow>
                     (case loadCache (storage st2) t1 flt of
                        Some c \<Rightarrow> finish True (showError ShowingCached (st2\<lparr>allArticles := c\<rparr>))
                      | None \<Rightarrow>
                          (showError CannotLoad st2)
                            \<lparr>grid := [EmptyState FetchFailed], articleCount := NArticles 0\<rparr>)))"


section \<open>Multi-query generation\<close>

definition FILTER_QUERIES_all :: "string list" where
  "FILTER_QUERIES_all = [''artificial intelligence'', ''machine learning'', ''LLM'', ''OpenAI'']"

definition FILTER_QUERIES :: "string \<Rightarrow> string list option" where
  "FILTER_QUERIES flt =
     map_of
       [(''all'', FILTER_QUERIES_all),
        (''llm'', [''large language model'', ''LLM'', ''ChatGPT'', ''Claude AI'', ''Gemini AI'']),
        (''research'', [''AI research'', ''machine learning paper'', ''deep learning'', ''neural network'']),
        (''openai'', [''OpenAI'', ''ChatGPT'', ''GPT-4'', ''Sora OpenAI'']),
        (''google'', [''Google DeepMind'', ''Gemini Google'', ''Google AI'']),
        (''robotics'', [''AI robotics'', ''robot AI'', ''autonomous robot'']),
        (''opensource'', [''open source AI'', ''Llama AI'', ''Mistral AI'', ''HuggingFace''])] flt"

text \<open>\<^verbatim>\<open>FILTER_QUERIES[filter] || FILTER_QUERIES.all\<close>\<close>

definition queries_of :: "string \<Rightarrow> string list" where
  "queries_of flt = (case FILTER_QUERIES flt of Some qs \<Rightarrow> qs | None \<Rightarrow> FILTER_QUERIES_all)"

text \<open>\<^verbatim>\<open>fetchOne(query, daysBack)\<close>: rejects unless the response is ok.\<close>

definition fetchOne :: "(request \<Rightarrow> hit response) \<Rightarrow> string \<Rightarrow> nat \<Rightarrow> error + hit payload" where
  "fetchOne net query daysBack =
     (case net (HNQuery query daysBack) of
        Failed \<Rightarrow> Inl FetchError
      | Ok p \<Rightarrow> Inr p)"

text \<open>
  The inner loop of \<^verbatim>\<open>fetchAll\<close> over the hits of one fulfilled batch, on the pair of
  \<^verbatim>\<open>seen\<close> and \<^verbatim>\<open>results\<close>.
\<close>

fun ingest_hits :: "string set \<times> hit list \<Rightarrow> hit list \<Rightarrow> string set \<times> hit list" where
  "ingest_hits (seen, results) [] = (seen, results)"
| "ingest_hits (seen, results) (h # hs) =
     (if objectID h \<notin> seen \<and> truthy (title h)
      then ingest_hits (insert (objectID h) seen, results @ [h]) hs
      else ingest_hits (seen, results) hs)"

text \<open>
  The outer loop over the settled batches: a rejected batch is skipped, a fulfilled
  one is iterated, which throws when its value is no array.
\<close>

fun ingest_batches ::
  "string set \<times> hit list \<Rightarrow> (error + hit payload) list \<Rightarrow> error + string set \<times> hit list" where
  "ingest_batches acc [] = Inr acc"
| "ingest_batches acc (Inl e # bs) = ingest_batches acc bs"
| "ingest_batches acc (Inr NotArray # bs) = Inl TypeError"
| "ingest_batches acc (Inr (Array hs) # bs) = ingest_batches (ingest_hits acc hs) bs"

text \<open>\<^verbatim>\<open>fetchAll(filter)\<close>, with the requests it issued.\<close>

definition fetchAll :: "(request \<Rightarrow> hit response) \<Rightarrow> string \<Rightarrow> request list \<times> (error + hit list)" where
  "fetchAll net flt =
     (let queries = queries_of flt;
          reqs1 = map (\<lambda>q. HNQuery q 1) queries;
          batches = map (\<lambda>q. fetchOne net q 1) queries
      in case ingest_batches ({}, []) batches of
           Inl e \<Rightarrow> (reqs1, Inl e)
         | Inr (seen, results) \<Rightarrow>
             if length results < 6
             then (let reqs3 = map (\<lambda>q. HNQuery q 3) queries;
                       batches2 = map (\<lambda>q. fetchOne net q 3) queries
                   in case ingest_batches (seen, results) batches2 of
                        Inl e \<Rightarrow> (reqs1 @ reqs3, Inl e)
                      | Inr (seen2, results2) \<Rightarrow>
                          (reqs1 @ reqs3, Inr (take 80 (sort_desc score results2))))
             else (reqs1, Inr (take 80 (sort_desc score results))))"

text \<open>
  \<^verbatim>\<open>load(filter, force)\<close> of the multi-query generation. \<open>t0\<close> and \<open>t1\<close> as in
  \<open>loadArticles\<close>. The hard-failure branch shows no banner in this generation.
\<close>

definition load_v3 ::
  "(request \<Rightarrow> hit response) \<Rightarrow> int \<Rightarrow> int \<Rightarrow> string \<Rightarrow> bool \<Rightarrow> hit app \<Rightarrow> hit app" where
  "load_v3 net t0 t1 flt force st =
     (if isLoading st then st
      else
        (let st1 = begin_load flt (st\<lparr>isLoading := True\<rparr>);
             cached = (if force then None else loadCache (storage st1) t0 flt)
         in case usable cached of
              Some c \<Rightarrow> (finish True (st1\<lparr>allArticles := c\<rparr>))\<lparr>isLoading := False\<rparr>
            | None \<Rightarrow>
                (let (reqs, r) = fetchAll net flt;
                     st2 = st1\<lparr>requests := requests st1 @ reqs\<rparr>
                 in (case r of
                       Inr arts \<Rightarrow>
                         finish False
                           ((if arts \<noteq> [] then store_articles t1 flt arts else (\<lambda>s. s))
                              (st2\<lparr>allArticles := arts\<rparr>))
                     | Inl e \<Rightarrow>
                         (case usable (loadCache (storage st2) t1 flt) of
                            Some fb \<Rightarrow> finish True (showError ShowingCached (st2\<lparr>allArticles := fb\<rparr>))
                          | None \<Rightarrow>
                              st2\<lparr>grid := [EmptyState FetchFailed], articleCount := NArticles 0\<rparr>))
                    \<lparr>isLoading := False\<rparr>)))"

section \<open>Two-source generation\<close>

text \<open>A dev.to record as the code reads it; \<open>dv_id\<close> is the id as a template prints it.\<close>

record devto_item =
  dv_id :: string
  dv_title :: "string option"
  dv_url :: string
  positive_reactions_count :: "int option"
  comments_count :: "int option"
  published_at :: string

text \<open>The common article shape both fetchers normalise to.\<close>

record article =
  art_id :: string
  art_title :: string
  art_url :: string
  art_source :: string
  art_points :: int
  art_comments :: int
  art_date :: string
  art_dateStr :: string

text \<open>
  The display helpers rest on the browser's \<^verbatim>\<open>URL\<close> and \<^verbatim>\<open>Date\<close>; they are parameters:
  \<^verbatim>\<open>parseDomain(url)\<close>, \<^verbatim>\<open>timeAgo(dateStr)\<close> at the time of the call, and
  \<^verbatim>\<open>new Date(ms).toISOString()\<close>, which throws a RangeError on an invalid date
  (\<open>None\<close>).
\<close>

record view =
  parseDomain :: "string option \<Rightarrow> string"
  timeAgo :: "string \<Rightarrow> string"
  toISOString :: "int \<Rightarrow> string option"

record filter_cfg =
  cfg_devto :: "string list"
  cfg_hn :: string

definition FILTERS_all :: filter_cfg where
  "FILTERS_all =
     \<lparr>cfg_devto = [''artificial-intelligence'', ''machinelearning'', ''llm''],
      cfg_hn = ''artificial intelligence''\<rparr>"

definition FILTERS :: "string \<Rightarrow> filter_cfg option" where
  "FILTERS flt =
     map_of
       [(''all'', FILTERS_all),
        (''llm'', \<lparr>cfg_devto = [''llm'', ''gpt'', ''openai''], cfg_hn = ''large language model''\<rparr>),
        (''research'', \<lparr>cfg_devto = [''deeplearning'', ''machinelearning'', ''datascience''],
                        cfg_hn = ''machine learning research''\<rparr>),
        (''openai'', \<lparr>cfg_devto = [''openai'', ''chatgpt'', ''gpt''], cfg_hn = ''OpenAI''\<rparr>),
        (''google'', \<lparr>cfg_devto = [''googleai'', ''gemini'', ''tensorflow''],
                      cfg_hn = ''Google DeepMind Gemini''\<rparr>),
        (''robotics'', \<lparr>cfg_devto = [''robotics'', ''ros''], cfg_hn = ''AI robotics''\<rparr>),
        (''opensource'', \<lparr>cfg_devto = [''opensource'', ''llm'', ''huggingface''],
                          cfg_hn = ''open source AI model''\<rparr>),
        (''funding'', \<lparr>cfg_devto = [''startup'', ''artificial-intelligence'', ''machinelearning''],
                       cfg_hn = ''AI startup funding raises million''\<rparr>)] flt"

text \<open>\<^verbatim>\<open>FILTERS[filter] || FILTERS.all\<close>\<close>

definition cfg_of :: "string \<Rightarrow> filter_cfg" where
  "cfg_of flt = (case FILTERS flt of Some c \<Rightarrow> c | None \<Rightarrow> FILTERS_all)"

definition FUNDING_KEYWORDS :: "string list" where
  "FUNDING_KEYWORDS =
     [''raises'', ''funding'', ''raised'', ''series a'', ''series b'', ''series c'', ''series d'',
      ''seed round'', ''investment'', ''investor'', ''venture'', ''valuation'', ''valued at'',
      ''million'', ''billion'', ''backed'', ''round led'', ''secures'', ''secured'', ''acqui'',
      ''ipo'', ''unicorn'', ''pre-seed'', ''growth round'', ''led by'', ''capital'']"

text \<open>
  \<^verbatim>\<open>toLowerCase\<close> on one character. Titles are byte strings here: the letters A to Z
  are mapped, every other byte is left alone, which is what JavaScript does on ASCII.
\<close>

definition lower_of :: "char \<Rightarrow> char" where
  "lower_of c =
     (case map_of (zip ''ABCDEFGHIJKLMNOPQRSTUVWXYZ'' ''abcdefghijklmnopqrstuvwxyz'') c of
        Some l \<Rightarrow> l
      | None \<Rightarrow> c)"

definition toLowerCase :: "string \<Rightarrow> string" where
  "toLowerCase s = map lower_of s"

text \<open>\<^verbatim>\<open>s.startsWith(w)\<close> and \<^verbatim>\<open>s.includes(w)\<close>\<close>

fun startsWith :: "string \<Rightarrow> string \<Rightarrow> bool" where
  "startsWith s [] = True"
| "startsWith [] (w # ws) = False"
| "startsWith (c # cs) (w # ws) = (c = w \<and> startsWith cs ws)"

fun includes_str :: "string \<Rightarrow> string \<Rightarrow> bool" where
  "includes_str [] w = (w = [])"
| "includes_str (c # cs) w = (startsWith (c # cs) w \<or> includes_str cs w)"

text \<open>
  The predicate of the funding post-filter:
  \<^verbatim>\<open>FUNDING_KEYWORDS.some(kw => (a.title || '').toLowerCase().includes(kw))\<close>
\<close>

definition is_funding :: "article \<Rightarrow> bool" where
  "is_funding a = list_ex (\<lambda>kw. includes_str (toLowerCase (art_title a)) kw) FUNDING_KEYWORDS"

text \<open>
  The local \<^verbatim>\<open>normalize\<close> of \<^verbatim>\<open>merge\<close>:
  \<^verbatim>\<open>t.toLowerCase().replace(/[^a-z0-9 ]/g, '').trim()\<close>. After the replacement the only
  white space left is the space character.
\<close>

definition trim :: "string \<Rightarrow> string" where
  "trim s = rev (dropWhile (\<lambda>c. c = CHR '' '') (rev (dropWhile (\<lambda>c. c = CHR '' '') s)))"

definition normalize :: "string \<Rightarrow> string" where
  "normalize t =
     trim (filter (\<lambda>c. c \<in> set ''abcdefghijklmnopqrstuvwxyz0123456789 '') (toLowerCase t))"

text \<open>\<^verbatim>\<open>const key = normalize(a.title).slice(0, 60)\<close>\<close>

definition title_key :: "article \<Rightarrow> string" where
  "title_key a = take 60 (normalize (art_title a))"

text \<open>\<^verbatim>\<open>merge(devto, hn)\<close>\<close>

definition merge :: "article list \<Rightarrow> article list \<Rightarrow> article list" where
  "merge devto hn = take 80 (sort_desc art_points (dedupe title_key {} (devto @ hn)))"

text \<open>The record \<^verbatim>\<open>fetchDevTo\<close> pushes for one dev.to item.\<close>

definition devto_article :: "view \<Rightarrow> devto_item \<Rightarrow> article" where
  "devto_article vw a =
     \<lparr>art_id = ''devto-'' @ dv_id a,
      art_title = (case dv_title a of Some t \<Rightarrow> t | None \<Rightarrow> []),
      art_url = dv_url a,
      art_source = ''dev.to'',
      art_points = (case positive_reactions_count a of None \<Rightarrow> 0 | Some n \<Rightarrow> n),
      art_comments = (case comments_count a of None \<Rightarrow> 0 | Some n \<Rightarrow> n),
      art_date = published_at a,
      art_dateStr = timeAgo vw (published_at a)\<rparr>"

fun ingest_devto ::
  "view \<Rightarrow> string set \<times> article list \<Rightarrow> devto_item list \<Rightarrow> string set \<times> article list" where
  "ingest_devto vw (seen, results) [] = (seen, results)"
| "ingest_devto vw (seen, results) (a # as) =
     (if dv_id a \<notin> seen \<and> truthy (dv_title a)
      then ingest_devto vw (insert (dv_id a) seen, results @ [devto_article vw a]) as
      else ingest_devto vw (seen, results) as)"

fun ingest_devto_batches ::
  "view \<Rightarrow> string set \<times> article list \<Rightarrow> devto_item payload list
     \<Rightarrow> error + string set \<times> article list" where
  "ingest_devto_batches vw acc [] = Inr acc"
| "ingest_devto_batches vw acc (NotArray # bs) = Inl TypeError"
| "ingest_devto_batches vw acc (Array as # bs) =
     ingest_devto_batches vw (ingest_devto vw acc as) bs"

text \<open>
  \<^verbatim>\<open>fetchDevTo(tags)\<close>: every tag is requested; a request that fails counts as the empty
  batch (\<^verbatim>\<open>r.ok ? r.json() : []\<close>, \<^verbatim>\<open>.catch(() => [])\<close>). The loops run outside any
  \<^verbatim>\<open>try\<close>, so a batch that is no array makes the function throw.
\<close>

definition fetchDevTo ::
  "view \<Rightarrow> (request \<Rightarrow> devto_item response) \<Rightarrow> string list \<Rightarrow> request list \<times> (error + article list)" where
  "fetchDevTo vw net tags =
     (let batches = map (\<lambda>tag. case net (DevToTag tag) of Failed \<Rightarrow> Array [] | Ok p \<Rightarrow> p) tags
      in (map DevToTag tags,
          case ingest_devto_batches vw ({}, []) batches of
            Inl e \<Rightarrow> Inl e
          | Inr (seen, results) \<Rightarrow> Inr results))"

text \<open>
  The record \<^verbatim>\<open>fetchHN\<close> builds for one hit; the callback throws when the hit's
  timestamp is no valid date.
\<close>

definition hn_article :: "view \<Rightarrow> hit \<Rightarrow> article option" where
  "hn_article vw h =
     (case toISOString vw (created_at_i h * 1000) of
        None \<Rightarrow> None
      | Some isoDate \<Rightarrow>
          Some
            \<lparr>art_id = ''hn-'' @ objectID h,
             art_title = (case title h of Some t \<Rightarrow> t | None \<Rightarrow> []),
             art_url = (if truthy (url h) then (case url h of Some u \<Rightarrow> u | None \<Rightarrow> [])
                        else ''https://news.ycombinator.com/item?id='' @ objectID h),
             art_source = parseDomain vw (url h),
             art_points = score h,
             art_comments = (case num_comments h of None \<Rightarrow> 0 | Some n \<Rightarrow> n),
             art_date = isoDate,
             art_dateStr = timeAgo vw isoDate\<rparr>)"

text \<open>
  \<^verbatim>\<open>fetchHN(query)\<close> of the two-source generation: the whole body is inside a \<^verbatim>\<open>try\<close>
  whose \<^verbatim>\<open>catch\<close> returns the empty list, whether the request fails, the \<^verbatim>\<open>hits\<close> are
  no array, or the callback of \<^verbatim>\<open>map\<close> throws on some hit.
\<close>

definition fetchHN_v4 ::
  "view \<Rightarrow> (request \<Rightarrow> hit response) \<Rightarrow> string \<Rightarrow> request list \<times> article list" where
  "fetchHN_v4 vw net query =
     ([HNPlain query],
      case net (HNPlain query) of
        Failed \<Rightarrow> []
      | Ok NotArray \<Rightarrow> []
      | Ok (Array hits) \<Rightarrow>
          (case those (map (hn_article vw) (filter (\<lambda>h. truthy (title h)) hits)) of
             None \<Rightarrow> []
           | Some arts \<Rightarrow> arts))"

text \<open>
  The \<^verbatim>\<open>catch\<close> branch of \<^verbatim>\<open>load\<close>; it shows no banner when there is nothing cached.
\<close>

definition load_failed_v4 :: "int \<Rightarrow> string \<Rightarrow> article app \<Rightarrow> article app" where
  "load_failed_v4 t1 flt st =
     (case usable (loadCache (storage st) t1 flt) of
        Some fb \<Rightarrow> finish True (showError ShowingCached (st\<lparr>allArticles := fb\<rparr>))
      | None \<Rightarrow> st\<lparr>grid := [EmptyState FetchFailed], articleCount := NArticles 0\<rparr>)"

text \<open>
  \<^verbatim>\<open>load(filter, force)\<close> of the two-source generation. Both fetchers are started
  before either is awaited, so both sets of requests are issued even when
  \<^verbatim>\<open>fetchDevTo\<close> throws. \<open>t0\<close> is the clock when the cache is first consulted, \<open>t1\<close> the
  one clock value read afterwards (by \<^verbatim>\<open>saveCache\<close> or in the \<^verbatim>\<open>catch\<close> branch).
\<close>

definition load_v4 ::
  "view \<Rightarrow> (request \<Rightarrow> devto_item response) \<Rightarrow> (request \<Rightarrow> hit response)
     \<Rightarrow> int \<Rightarrow> int \<Rightarrow> string \<Rightarrow> bool \<Rightarrow> article app \<Rightarrow> article app" where
  "load_v4 vw dnet hnet t0 t1 flt force st =
     (let st1 = begin_load flt st;
          cached = (if force then None else loadCache (storage st1) t0 flt)
      in case usable cached of
           Some c \<Rightarrow> finish True (st1\<lparr>allArticles := c\<rparr>)
         | None \<Rightarrow>
             (let cfg = cfg_of flt;
                  (dreqs, dres) = fetchDevTo vw dnet (cfg_devto cfg);
                  (hreqs, hn) = fetchHN_v4 vw hnet (cfg_hn cfg);
                  st2 = st1\<lparr>requests := requests st1 @ dreqs @ hreqs\<rparr>
              in case dres of
                   Inl e \<Rightarrow> load_failed_v4 t1 flt st2
                 | Inr devto \<Rightarrow>
                     (let merged = merge devto hn;
                          kept = (if flt = ''funding'' then filter is_funding merged else merged);
                          st3 = st2\<lparr>allArticles := kept\<rparr>
                      in if kept \<noteq> []
                         then finish False (store_articles t1 flt kept st3)
                         else
                           (let (freqs, fres) = fetchDevTo vw dnet [''artificial-intelligence''];
                                st4 = st3\<lparr>requests := requests st3 @ freqs\<rparr>
                            in case fres of
                                 Inl e \<Rightarrow> load_failed_v4 t1 flt st4
                               | Inr fallback \<Rightarrow>
                                   if fallback \<noteq> []
                                   then showError LimitedResults
                                          (finish False (st4\<lparr>allArticles := fallback\<rparr>))
                                   else st4\<lparr>allArticles := fallback,
                                            grid := [EmptyState CouldNotLoad],
                                            articleCount := NArticles 0\<rparr>))))"

section \<open>The inputs of a run, in fetch order\<close>

text \<open>
  The claims speak of the input articles of one aggregation run and of their fetch
  order. For the multi-query generation these are the hits with a title of the
  fulfilled batches, batch after batch, the one-day round first and the three-day
  round after it when it takes place; for the single-query generation the hits of
  the response that is ranked.
\<close>

definition titled :: "hit list \<Rightarrow> hit list" where
  "titled hs = filter (\<lambda>h. truthy (title h)) hs"

definition fulfilled_hits :: "(error + hit payload) list \<Rightarrow> hit list" where
  "fulfilled_hits bs = concat (map (\<lambda>b. case b of Inr (Array hs) \<Rightarrow> hs | _ \<Rightarrow> []) bs)"

definition round_v3 :: "(request \<Rightarrow> hit response) \<Rightarrow> string \<Rightarrow> nat \<Rightarrow> hit list" where
  "round_v3 net flt days =
     titled (fulfilled_hits (map (\<lambda>q. fetchOne net q days) (queries_of flt)))"

definition inputs_v3 :: "(request \<Rightarrow> hit response) \<Rightarrow> string \<Rightarrow> hit list" where
  "inputs_v3 net flt =
     (if length (dedupe objectID {} (round_v3 net flt 1)) < 6
      then round_v3 net flt 1 @ round_v3 net flt 3
      else round_v3 net flt 1)"

definition inputs_v2 :: "(request \<Rightarrow> hit response) \<Rightarrow> string \<Rightarrow> hit list" where
  "inputs_v2 net flt =
     (case net (HNQuery (query_of flt) 1) of
        Ok (Array hits) \<Rightarrow>
          if length hits < 5
          then (case net (HNQuery (query_of flt) 3) of Ok (Array hits3) \<Rightarrow> hits3 | _ \<Rightarrow> [])
          else hits
      | _ \<Rightarrow> [])"

text \<open>How many elements of a list carry a given deduplication key.\<close>

definition count_by :: "('a \<Rightarrow> 'k) \<Rightarrow> 'k \<Rightarrow> 'a list \<Rightarrow> nat" where
  "count_by key k xs = length (filter (\<lambda>a. key a = k) xs)"

section \<open>Sample data\<close>

text \<open>The state of a freshly loaded page over a given local storage.\<close>

definition boot :: "'a blob \<Rightarrow> 'a app" where
  "boot b =
     \<lparr>allArticles = [], displayedCount = 0, currentFilter = ''all'', isLoading = False,
      grid = [], articleCount = LoadingText, lastUpdated = NoStamp, loadMoreShown = False,
      errorBanner = None, storage = b, quota_ok = True, requests = []\<rparr>"

text \<open>A network on which every request fails, and one that answers every request alike.\<close>

definition offline :: "request \<Rightarrow> 'a response" where
  "offline r = Failed"

definition answering :: "'a list \<Rightarrow> request \<Rightarrow> 'a response" where
  "answering xs r = Ok (Array xs)"

definition bad_json :: "request \<Rightarrow> 'a response" where
  "bad_json r = Ok NotArray"

text \<open>A browser at a fixed moment, for hits and items stamped at the epoch.\<close>

definition plain_view :: view where
  "plain_view =
     \<lparr>parseDomain = (\<lambda>u. if truthy u then ''link'' else ''dev.to''),
      timeAgo = (\<lambda>d. ''19723d ago''),
      toISOString = (\<lambda>ms. Some ''1970-01-01T00:00:00.000Z'')\<rparr>"

definition gpt_hit :: hit where
  "gpt_hit = \<lparr>objectID = ''1'', title = Some ''GPT news'', url = None, points = Some 7,
              num_comments = None, created_at_i = 0\<rparr>"

definition llm_hit :: hit where
  "llm_hit = \<lparr>objectID = ''2'', title = Some ''LLM paper'', url = None, points = Some 9,
              num_comments = None, created_at_i = 0\<rparr>"

definition gpt_hit_again :: hit where
  "gpt_hit_again = \<lparr>objectID = ''1'', title = Some ''GPT news (repost)'', url = None,
                    points = Some 9, num_comments = None, created_at_i = 0\<rparr>"

text \<open>A store with one entry for the filter \<^verbatim>\<open>llm\<close>, written at time 0.\<close>

definition llm_store :: "'a list \<Rightarrow> 'a blob" where
  "llm_store arts = Stored ((\<lambda>k. None)(''llm'' \<mapsto> \<lparr>ts = 0, articles = arts\<rparr>))"

text \<open>
  The two overlapping articles of the specification's scenario, and 81 dev.to
  articles of higher score with pairwise distinct titles.
\<close>

definition raises_devto :: article where
  "raises_devto =
     \<lparr>art_id = ''devto-2'', art_title = ''OpenAI Raises $500M'', art_url = [],
      art_source = ''dev.to'', art_points = 80, art_comments = 0, art_date = [],
      art_dateStr = []\<rparr>"

definition raises_hn :: article where
  "raises_hn =
     \<lparr>art_id = ''hn-1'', art_title = ''OpenAI raises $500M'',
      art_url = ''https://news.ycombinator.com/item?id=1'',
      art_source = ''dev.to'', art_points = 120, art_comments = 0,
      art_date = ''1970-01-01T00:00:00.000Z'', art_dateStr = ''19723d ago''\<rparr>"

definition gpt_hn :: article where
  "gpt_hn =
     \<lparr>art_id = ''hn-1'', art_title = ''GPT news'',
      art_url = ''https://news.ycombinator.com/item?id=1'',
      art_source = ''dev.to'', art_points = 7, art_comments = 0,
      art_date = ''1970-01-01T00:00:00.000Z'', art_dateStr = ''19723d ago''\<rparr>"

definition rag_devto :: article where
  "rag_devto =
     \<lparr>art_id = ''devto-77'', art_title = ''RAG tutorial'', art_url = ''https://dev.to/rag'',
      art_source = ''dev.to'', art_points = 5, art_comments = 0,
      art_date = ''1970-01-01T00:00:00Z'', art_dateStr = ''19723d ago''\<rparr>"

definition chatbot_devto :: article where
  "chatbot_devto =
     \<lparr>art_id = ''devto-3'', art_title = ''Build a chatbot'', art_url = [],
      art_source = ''dev.to'', art_points = 120, art_comments = 0, art_date = [],
      art_dateStr = []\<rparr>"

definition agents_hn :: article where
  "agents_hn =
     \<lparr>art_id = ''hn-4'', art_title = ''AI agents'', art_url = [],
      art_source = ''link'', art_points = 120, art_comments = 0, art_date = [],
      art_dateStr = []\<rparr>"

definition raises_hit :: hit where
  "raises_hit = \<lparr>objectID = ''1'', title = Some ''OpenAI raises $500M'', url = None,
                 points = Some 120, num_comments = None, created_at_i = 0\<rparr>"

text \<open>Hits with pairwise distinct ids, the \<open>k\<close>-th with \<open>k\<close> points.\<close>

definition numbered :: "nat \<Rightarrow> hit" where
  "numbered k = \<lparr>objectID = replicate k CHR ''7'', title = Some ''story'', url = None,
                  points = Some (int k), num_comments = None, created_at_i = 0\<rparr>"

definition rag_item :: devto_item where
  "rag_item =
     \<lparr>dv_id = ''77'', dv_title = Some ''RAG tutorial'', dv_url = ''https://dev.to/rag'',
      positive_reactions_count = Some 5, comments_count = None,
      published_at = ''1970-01-01T00:00:00Z''\<rparr>"

definition story :: "nat \<Rightarrow> article" where
  "story n =
     \<lparr>art_id = ''devto-1'' @ replicate n CHR ''0'',
      art_title = replicate (Suc (n mod 41)) (if n < 41 then CHR ''a'' else CHR ''b''),
      art_url = [], art_source = ''dev.to'', art_points = 200, art_comments = 0,
      art_date = [], art_dateStr = []\<rparr>"

definition crowd :: "article list" where
  "crowd = map story [0..<81]"

text \<open>
  A dev.to interface that has articles under the tag of the broader fallback only,
  two dev.to items of 9 and of 5 reactions with the articles built from them, and 81
  dev.to items with pairwise distinct ids.
\<close>

definition broad_only :: "devto_item list \<Rightarrow> request \<Rightarrow> devto_item response" where
  "broad_only xs r =
     (if r = DevToTag ''artificial-intelligence'' then Ok (Array xs) else Ok (Array []))"

definition agents_item :: devto_item where
  "agents_item =
     \<lparr>dv_id = ''78'', dv_title = Some ''AI agents guide'', dv_url = ''https://dev.to/agents'',
      positive_reactions_count = Some 9, comments_count = None,
      published_at = ''1970-01-01T00:00:00Z''\<rparr>"

definition agents_devto :: article where
  "agents_devto =
     \<lparr>art_id = ''devto-78'', art_title = ''AI agents guide'', art_url = ''https://dev.to/agents'',
      art_source = ''dev.to'', art_points = 9, art_comments = 0,
      art_date = ''1970-01-01T00:00:00Z'', art_dateStr = ''19723d ago''\<rparr>"

definition post :: "nat \<Rightarrow> devto_item" where
  "post n =
     \<lparr>dv_id = replicate (Suc n) CHR ''7'', dv_title = Some ''AI weekly'', dv_url = [],
      positive_reactions_count = None, comments_count = None, published_at = []\<rparr>"

definition flood :: "devto_item list" where
  "flood = map post [0..<81]"

section \<open>Deduplication and ranking\<close>

lemma dedupe_subseq: "subseq (dedupe key seen xs) xs"
  by (induction xs arbitrary: seen) auto

lemma dedupe_set: "key ` set (dedupe key seen xs) = key ` set xs - seen"
  by (induction xs arbitrary: seen) auto

lemma dedupe_subset: "set (dedupe key seen xs) \<subseteq> set xs"
  by (induction xs arbitrary: seen) auto

lemma dedupe_not_seen: "a \<in> set (dedupe key seen xs) \<Longrightarrow> key a \<notin> seen"
  by (induction xs arbitrary: seen) (auto split: if_splits)

lemma dedupe_distinct: "distinct (map key (dedupe key seen xs))"
proof (induction xs arbitrary: seen)
  case Nil
  show ?case by simp
next
  case (Cons x xs)
  show ?case
  proof (cases "key x \<in> seen")
    case True
    with Cons show ?thesis by simp
  next
    case False
    have "key x \<notin> key ` set (dedupe key (insert (key x) seen) xs)"
      by (simp add: dedupe_set)
    with False Cons show ?thesis by simp
  qed
qed

lemma dedupe_append:
  "dedupe key seen (xs @ ys) = dedupe key seen xs @ dedupe key (seen \<union> key ` set xs) ys"
proof (induction xs arbitrary: seen)
  case Nil
  show ?case by simp
next
  case (Cons x xs)
  show ?case
  proof (cases "key x \<in> seen")
    case True
    then have "seen \<union> key ` set (x # xs) = seen \<union> key ` set xs" by auto
    with True Cons show ?thesis by simp
  next
    case False
    have "insert (key x) seen \<union> key ` set xs = seen \<union> key ` set (x # xs)" by auto
    with False Cons show ?thesis by simp
  qed
qed

lemma dedupe_find:
  "a \<in> set (dedupe key seen xs) \<Longrightarrow> find (\<lambda>b. key b = key a) xs = Some a"
proof (induction xs arbitrary: seen)
  case Nil
  then show ?case by simp
next
  case (Cons x xs)
  show ?case
  proof (cases "key x \<in> seen")
    case True
    with Cons.prems have a: "a \<in> set (dedupe key seen xs)" by simp
    then have "key a \<notin> seen" by (rule dedupe_not_seen)
    with True have "key x \<noteq> key a" by auto
    with Cons.IH[OF a] show ?thesis by simp
  next
    case False
    with Cons.prems have "a = x \<or> a \<in> set (dedupe key (insert (key x) seen) xs)" by simp
    then show ?thesis
    proof
      assume "a = x" then show ?thesis by simp
    next
      assume a: "a \<in> set (dedupe key (insert (key x) seen) xs)"
      then have "key a \<notin> insert (key x) seen" by (rule dedupe_not_seen)
      then have "key x \<noteq> key a" by auto
      with Cons.IH[OF a] show ?thesis by simp
    qed
  qed
qed

lemma dedupe_first_kept:
  "x \<in> set xs \<Longrightarrow> key x \<notin> seen \<Longrightarrow>
     \<exists>a \<in> set (dedupe key seen xs). find (\<lambda>b. key b = key x) xs = Some a"
proof -
  assume "x \<in> set xs" "key x \<notin> seen"
  then have "key x \<in> key ` set (dedupe key seen xs)" by (simp add: dedupe_set)
  then obtain a where a: "a \<in> set (dedupe key seen xs)" and k: "key a = key x" by auto
  from dedupe_find[OF a] k show ?thesis using a by auto
qed

lemma count_le_one_distinct:
  "distinct (map key xs) \<Longrightarrow> length (filter (\<lambda>a. key a = k) xs) \<le> 1"
proof (induction xs)
  case Nil
  show ?case by simp
next
  case (Cons x xs)
  then have d: "distinct (map key xs)" and nx: "key x \<notin> key ` set xs" by auto
  show ?case
  proof (cases "key x = k")
    case True
    with nx have "filter (\<lambda>a. key a = k) xs = []" by (force simp: filter_empty_conv image_iff)
    with True show ?thesis by simp
  next
    case False
    with Cons.IH[OF d] show ?thesis by simp
  qed
qed

lemma count_eq_one_distinct:
  "distinct (map key xs) \<Longrightarrow> x \<in> set xs \<Longrightarrow> length (filter (\<lambda>a. key a = key x) xs) = 1"
proof -
  assume d: "distinct (map key xs)" and x: "x \<in> set xs"
  then have "filter (\<lambda>a. key a = key x) xs \<noteq> []" by (auto simp: filter_empty_conv)
  then have "length (filter (\<lambda>a. key a = key x) xs) \<noteq> 0" by simp
  with count_le_one_distinct[OF d, of "key x"] show ?thesis by linarith
qed

lemma distinct_map_take: "distinct (map key xs) \<Longrightarrow> distinct (map key (take n xs))"
  by (simp add: take_map[symmetric])

lemma distinct_map_sort_desc: "distinct (map key (sort_desc f xs)) = distinct (map key xs)"
  by (simp add: sort_desc_def distinct_map)

lemma set_sort_desc: "set (sort_desc f xs) = set xs"
  by (simp add: sort_desc_def)

lemma length_sort_desc: "length (sort_desc f xs) = length xs"
  by (simp add: sort_desc_def)

lemma sorted_sort_desc: "sorted_wrt (\<lambda>a b. f a \<ge> f b) (sort_desc f xs)"
proof -
  have "sorted (map (\<lambda>a. - f a) (sort_key (\<lambda>a. - f a) xs))" by (rule sorted_sort_key)
  then show ?thesis by (simp add: sort_desc_def sorted_map)
qed

lemma stable_sort_desc: "filter (\<lambda>a. f a = s) (sort_desc f xs) = filter (\<lambda>a. f a = s) xs"
proof -
  have "filter (\<lambda>a. - f a = - s) (sort_key (\<lambda>a. - f a) xs) = filter (\<lambda>a. - f a = - s) xs"
    by (rule sort_key_stable)
  then show ?thesis by (simp add: sort_desc_def)
qed

lemma ranked_sorted: "sorted_wrt (\<lambda>a b. f a \<ge> f b) (take n (sort_desc f xs))"
  by (rule sorted_wrt_take) (rule sorted_sort_desc)

lemma ranked_stable:
  "prefix (filter (\<lambda>a. f a = s) (take n (sort_desc f xs))) (filter (\<lambda>a. f a = s) xs)"
proof -
  have "prefix (take n (sort_desc f xs)) (sort_desc f xs)" by (rule take_is_prefix)
  then have "prefix (filter (\<lambda>a. f a = s) (take n (sort_desc f xs)))
               (filter (\<lambda>a. f a = s) (sort_desc f xs))"
    by (rule filter_mono_prefix)
  then show ?thesis by (simp add: stable_sort_desc)
qed

section \<open>The fetch loops as one pass over the inputs\<close>

lemma ingest_hits_eq:
  "ingest_hits (seen, results) hs =
     (seen \<union> objectID ` set (titled hs), results @ dedupe objectID seen (titled hs))"
proof (induction hs arbitrary: seen results)
  case Nil
  show ?case by (simp add: titled_def)
next
  case (Cons h hs)
  show ?case
  proof (cases "objectID h \<notin> seen \<and> truthy (title h)")
    case True
    then show ?thesis by (simp add: Cons.IH titled_def)
  next
    case False
    then have "ingest_hits (seen, results) (h # hs) = ingest_hits (seen, results) hs" by auto
    moreover from False have "seen \<union> objectID ` set (titled (h # hs)) = seen \<union> objectID ` set (titled hs)"
      by (auto simp: titled_def)
    moreover from False have "dedupe objectID seen (titled (h # hs)) = dedupe objectID seen (titled hs)"
      by (auto simp: titled_def)
    ultimately show ?thesis by (simp add: Cons.IH)
  qed
qed

lemma fulfilled_hits_simps:
  "fulfilled_hits [] = []"
  "fulfilled_hits (Inl e # bs) = fulfilled_hits bs"
  "fulfilled_hits (Inr (Array hs) # bs) = hs @ fulfilled_hits bs"
  by (simp_all add: fulfilled_hits_def)

lemma titled_append: "titled (xs @ ys) = titled xs @ titled ys"
  by (simp add: titled_def)

lemma ingest_batches_eq:
  "ingest_batches (seen, results) bs = Inr (seen', results') \<Longrightarrow>
     seen' = seen \<union> objectID ` set (titled (fulfilled_hits bs)) \<and>
     results' = results @ dedupe objectID seen (titled (fulfilled_hits bs))"
proof (induction bs arbitrary: seen results)
  case Nil
  then show ?case by (simp add: fulfilled_hits_simps titled_def)
next
  case (Cons b bs)
  show ?case
  proof (cases b)
    case (Inl e)
    with Cons.prems have "ingest_batches (seen, results) bs = Inr (seen', results')" by simp
    from Cons.IH[OF this] Inl show ?thesis by (simp add: fulfilled_hits_simps)
  next
    case (Inr p)
    show ?thesis
    proof (cases p)
      case NotArray
      with Inr Cons.prems show ?thesis by simp
    next
      case (Array hs)
      with Inr Cons.prems have
        "ingest_batches (seen \<union> objectID ` set (titled hs), results @ dedupe objectID seen (titled hs)) bs
           = Inr (seen', results')"
        by (simp add: ingest_hits_eq)
      from Cons.IH[OF this] Inr Array show ?thesis
        by (simp add: fulfilled_hits_simps titled_append dedupe_append Un_assoc image_Un)
    qed
  qed
qed

lemma fetchAll_output:
  assumes "snd (fetchAll net flt) = Inr out"
  shows "out = take 80 (sort_desc score (dedupe objectID {} (inputs_v3 net flt)))"
proof -
  let ?b1 = "map (\<lambda>q. fetchOne net q 1) (queries_of flt)"
  let ?b3 = "map (\<lambda>q. fetchOne net q 3) (queries_of flt)"
  from assms obtain seen results where r1: "ingest_batches ({}, []) ?b1 = Inr (seen, results)"
    by (auto simp: fetchAll_def Let_def split: sum.splits)
  from ingest_batches_eq[OF r1]
  have seen: "seen = objectID ` set (round_v3 net flt 1)"
    and res: "results = dedupe objectID {} (round_v3 net flt 1)"
    by (simp_all add: round_v3_def)
  show ?thesis
  proof (cases "length results < 6")
    case False
    with assms r1 have "out = take 80 (sort_desc score results)"
      by (simp add: fetchAll_def Let_def)
    with False res show ?thesis by (simp add: inputs_v3_def)
  next
    case True
    with assms r1 obtain seen2 results2 where
      r2: "ingest_batches (seen, results) ?b3 = Inr (seen2, results2)"
      and out: "out = take 80 (sort_desc score results2)"
      by (auto simp: fetchAll_def Let_def split: sum.splits)
    from ingest_batches_eq[OF r2]
    have "results2 = results @ dedupe objectID seen (round_v3 net flt 3)"
      by (simp add: round_v3_def)
    with seen res have "results2 = dedupe objectID {} (round_v3 net flt 1 @ round_v3 net flt 3)"
      by (simp add: dedupe_append)
    with True res out show ?thesis by (simp add: inputs_v3_def)
  qed
qed

lemma fetchArticles_output:
  assumes "snd (fetchArticles net flt) = Inr out"
  shows "out = rank_v2 (inputs_v2 net flt)"
  using assms
  by (auto simp: fetchArticles_def fetchHN_v2_def inputs_v2_def Let_def
           split: sum.splits payload.splits response.splits if_splits)

section \<open>The sample crowd\<close>

lemma lower_a: "lower_of CHR ''a'' = CHR ''a''" by (simp add: lower_of_def)
lemma lower_b: "lower_of CHR ''b'' = CHR ''b''" by (simp add: lower_of_def)

lemma normalize_replicate_a: "normalize (replicate k CHR ''a'') = replicate k CHR ''a''"
  by (simp add: normalize_def toLowerCase_def lower_a trim_def dropWhile_replicate)

lemma normalize_replicate_b: "normalize (replicate k CHR ''b'') = replicate k CHR ''b''"
  by (simp add: normalize_def toLowerCase_def lower_b trim_def dropWhile_replicate)

lemma dedupe_distinct_id:
  "distinct (map key xs) \<Longrightarrow> key ` set xs \<inter> seen = {} \<Longrightarrow> dedupe key seen xs = xs"
proof (induction xs arbitrary: seen)
  case Nil
  show ?case by simp
next
  case (Cons x xs)
  from Cons.prems have nx: "key x \<notin> seen" and d: "distinct (map key xs)"
    and kx: "key x \<notin> key ` set xs" and dj: "key ` set xs \<inter> seen = {}"
    by auto
  from kx dj have "key ` set xs \<inter> insert (key x) seen = {}" by auto
  from Cons.IH[OF d this] nx show ?case by simp
qed

lemma title_key_story:
  assumes "n < 81"
  shows "title_key (story n) = replicate (Suc (n mod 41)) (if n < 41 then CHR ''a'' else CHR ''b'')"
proof -
  have "n mod 41 < 41" by simp
  then have m: "min 60 (Suc (n mod 41)) = Suc (n mod 41)" by linarith
  have t: "art_title (story n) = replicate (Suc (n mod 41)) (if n < 41 then CHR ''a'' else CHR ''b'')"
    by (simp only: story_def article.simps)
  show ?thesis
  proof (cases "n < 41")
    case True
    with t have "art_title (story n) = replicate (Suc (n mod 41)) CHR ''a''" by simp
    then have "title_key (story n) = take 60 (replicate (Suc (n mod 41)) CHR ''a'')"
      by (simp only: title_key_def normalize_replicate_a)
    with m True show ?thesis by (simp only: take_replicate if_True)
  next
    case False
    with t have "art_title (story n) = replicate (Suc (n mod 41)) CHR ''b''" by simp
    then have "title_key (story n) = take 60 (replicate (Suc (n mod 41)) CHR ''b'')"
      by (simp only: title_key_def normalize_replicate_b)
    with m False show ?thesis by (simp only: take_replicate if_False)
  qed
qed


lemma story_keys_inj:
  assumes n: "n < 81" and m: "m < 81" and eq: "title_key (story n) = title_key (story m)"
  shows "n = m"
proof -
  let ?c = "\<lambda>k::nat. if k < 41 then CHR ''a'' else CHR ''b''"
  from eq have r: "replicate (Suc (n mod 41)) (?c n) = replicate (Suc (m mod 41)) (?c m)"
    by (simp only: title_key_story[OF n] title_key_story[OF m])
  then have "length (replicate (Suc (n mod 41)) (?c n)) = length (replicate (Suc (m mod 41)) (?c m))"
    by (rule arg_cong)
  then have l: "n mod 41 = m mod 41" by (simp only: length_replicate nat.inject)
  from r have "hd (replicate (Suc (n mod 41)) (?c n)) = hd (replicate (Suc (m mod 41)) (?c m))"
    by (rule arg_cong)
  then have "?c n = ?c m" by (simp only: replicate_Suc list.sel)
  then have c: "(n < 41) = (m < 41)" by (simp split: if_splits)
  show ?thesis
  proof (cases "n < 41")
    case True
    with c have "m < 41" by simp
    with True l show ?thesis by simp
  next
    case False
    with c have m41: "\<not> m < 41" by simp
    from False n have "n mod 41 = n - 41" by (simp add: mod_if)
    moreover from m41 m have "m mod 41 = m - 41" by (simp add: mod_if)
    ultimately show ?thesis using l False m41 by linarith
  qed
qed

lemma crowd_keys_distinct: "distinct (map title_key crowd)"
proof -
  have "inj_on (title_key \<circ> story) {0..<81}"
    by (rule inj_onI) (simp add: story_keys_inj)
  then show ?thesis
    by (simp add: crowd_def distinct_map)
qed

lemma raises_key:
  "title_key raises_devto = ''openai raises 500m'' \<and> title_key raises_hn = ''openai raises 500m''"
  by (simp add: title_key_def raises_devto_def raises_hn_def normalize_def toLowerCase_def
        lower_of_def trim_def)

lemma raises_key_not_crowd: "''openai raises 500m'' \<notin> title_key ` set crowd"
proof
  assume "''openai raises 500m'' \<in> title_key ` set crowd"
  then obtain n where n: "n < 81" and k: "title_key (story n) = ''openai raises 500m''"
    by (auto simp: crowd_def)
  from k have "hd (title_key (story n)) = CHR ''o''" by simp
  then show False
    by (simp only: title_key_story[OF n] replicate_Suc list.sel) (simp split: if_splits)
qed

lemma crowd_sorted: "sorted (map (\<lambda>a. - art_points a) (crowd @ [raises_devto]))"
proof -
  have "map (\<lambda>a. - art_points a) crowd = replicate 81 (- 200)"
    by (simp add: crowd_def story_def comp_def map_replicate_const)
  then show ?thesis
    by (simp add: raises_devto_def sorted_append)
qed

lemma merge_crowd: "merge (crowd @ [raises_devto]) [raises_hn] = take 80 crowd"
proof -
  have d: "distinct (map title_key (crowd @ [raises_devto]))"
    using crowd_keys_distinct raises_key raises_key_not_crowd by simp
  have "dedupe title_key {} ((crowd @ [raises_devto]) @ [raises_hn]) =
          dedupe title_key {} (crowd @ [raises_devto]) @
          dedupe title_key ({} \<union> title_key ` set (crowd @ [raises_devto])) [raises_hn]"
    by (rule dedupe_append)
  also have "dedupe title_key {} (crowd @ [raises_devto]) = crowd @ [raises_devto]"
    by (rule dedupe_distinct_id[OF d]) simp
  also have "dedupe title_key ({} \<union> title_key ` set (crowd @ [raises_devto])) [raises_hn] = []"
    using raises_key by simp
  finally have "dedupe title_key {} (crowd @ [raises_devto, raises_hn]) = crowd @ [raises_devto]"
    by simp
  moreover have "sort_desc art_points (crowd @ [raises_devto]) = crowd @ [raises_devto]"
    unfolding sort_desc_def by (rule sort_key_id_if_sorted) (rule crowd_sorted)
  moreover have "length crowd = 81" by (simp add: crowd_def)
  ultimately show ?thesis by (simp add: merge_def)
qed


section \<open>What ranking keeps\<close>

lemma ranked_stable_filtered:
  "prefix (filter (\<lambda>a. f a = s) (filter p (take n (sort_desc f xs))))
          (filter (\<lambda>a. f a = s) (filter p xs))"
proof -
  have "prefix (filter (\<lambda>a. f a = s) (take n (sort_desc f xs))) (filter (\<lambda>a. f a = s) xs)"
    by (rule ranked_stable)
  then have "prefix (filter p (filter (\<lambda>a. f a = s) (take n (sort_desc f xs))))
               (filter p (filter (\<lambda>a. f a = s) xs))"
    by (rule filter_mono_prefix)
  then show ?thesis by (simp add: conj_commute)
qed

lemma ranked_count_le_one: "count_by key k (take n (sort_desc f (dedupe key {} xs))) \<le> 1"
  unfolding count_by_def
  by (intro count_le_one_distinct distinct_map_take)
     (simp add: distinct_map_sort_desc dedupe_distinct)

lemma ranked_count_one:
  assumes "length (dedupe key {} xs) \<le> n" and "x \<in> set xs"
  shows "count_by key (key x) (take n (sort_desc f (dedupe key {} xs))) = 1"
proof -
  let ?r = "sort_desc f (dedupe key {} xs)"
  from assms(1) have t: "take n ?r = ?r" by (simp add: length_sort_desc)
  have d: "distinct (map key ?r)" by (simp add: distinct_map_sort_desc dedupe_distinct)
  from assms(2) have "key x \<in> key ` set (dedupe key {} xs)" by (simp add: dedupe_set)
  then obtain a where a: "a \<in> set ?r" and k: "key a = key x"
    by (auto simp: set_sort_desc)
  from count_eq_one_distinct[OF d a] k t show ?thesis by (simp add: count_by_def)
qed

lemma ranked_subset: "set (take n (sort_desc f (dedupe key {} xs))) \<subseteq> set xs"
proof -
  have "set (take n (sort_desc f (dedupe key {} xs))) \<subseteq> set (sort_desc f (dedupe key {} xs))"
    by (rule set_take_subset)
  also have "\<dots> \<subseteq> set xs" by (simp add: set_sort_desc dedupe_subset)
  finally show ?thesis .
qed

lemma ranked_first:
  assumes "a \<in> set (take n (sort_desc f (dedupe key {} xs)))"
  shows "find (\<lambda>b. key b = key a) xs = Some a"
proof -
  from assms have "a \<in> set (sort_desc f (dedupe key {} xs))" by (rule in_set_takeD)
  then have "a \<in> set (dedupe key {} xs)" by (simp add: set_sort_desc)
  then show ?thesis by (rule dedupe_find)
qed

lemma ranked_first_kept:
  assumes "length (dedupe key {} xs) \<le> n" and "x \<in> set xs"
  shows "\<exists>a \<in> set (take n (sort_desc f (dedupe key {} xs))). find (\<lambda>b. key b = key x) xs = Some a"
proof -
  from assms(1) have "take n (sort_desc f (dedupe key {} xs)) = sort_desc f (dedupe key {} xs)"
    by (simp add: length_sort_desc)
  then have "set (take n (sort_desc f (dedupe key {} xs))) = set (dedupe key {} xs)"
    by (simp add: set_sort_desc)
  with dedupe_first_kept[OF assms(2), of key "{}"] show ?thesis by simp
qed

lemma find_append_list:
  "find P (xs @ ys) = (case find P xs of None \<Rightarrow> find P ys | Some x \<Rightarrow> Some x)"
  by (induction xs) auto

section \<open>Fields that the rendering steps leave alone\<close>

lemma begin_load_fields:
  "storage (begin_load flt st) = storage st"
  "requests (begin_load flt st) = requests st"
  "quota_ok (begin_load flt st) = quota_ok st"
  "allArticles (begin_load flt st) = allArticles st"
  "isLoading (begin_load flt st) = isLoading st"
  "errorBanner (begin_load flt st) = None"
  "lastUpdated (begin_load flt st) = NoStamp"
  by (simp_all add: begin_load_def showSkeletons_def)

lemma finish_fields:
  "storage (finish fc st) = storage st"
  "requests (finish fc st) = requests st"
  "quota_ok (finish fc st) = quota_ok st"
  "allArticles (finish fc st) = allArticles st"
  "isLoading (finish fc st) = isLoading st"
  "errorBanner (finish fc st) = errorBanner st"
  by (simp_all add: finish_def renderPage_def Let_def)


lemma finish_grid_empty:
  "allArticles st = [] \<Longrightarrow> grid (finish fc st) = [EmptyState NoArticlesFound]"
  by (simp add: finish_def)

lemma finish_grid_cards:
  "allArticles st \<noteq> [] \<Longrightarrow> displayedCount st = 0 \<Longrightarrow>
     grid (finish fc st) = map Card (take PAGE_SIZE (allArticles st))"
  by (simp add: finish_def renderPage_def Let_def)

lemma showError_fields:
  "storage (showError m st) = storage st"
  "requests (showError m st) = requests st"
  "quota_ok (showError m st) = quota_ok st"
  "allArticles (showError m st) = allArticles st"
  "isLoading (showError m st) = isLoading st"
  "errorBanner (showError m st) = Some m"
  "lastUpdated (showError m st) = lastUpdated st"
  "grid (showError m st) = grid st"
  "articleCount (showError m st) = articleCount st"
  by (simp_all add: showError_def)

lemma store_articles_fields:
  "storage (store_articles t flt arts st) = saveCache (storage st) (quota_ok st) t flt arts"
  "requests (store_articles t flt arts st) = requests st"
  "allArticles (store_articles t flt arts st) = allArticles st"
  "errorBanner (store_articles t flt arts st) = errorBanner st"
  "lastUpdated (store_articles t flt arts st) = lastUpdated st"
  "isLoading (store_articles t flt arts st) = isLoading st"
  by (simp_all add: store_articles_def)

lemmas state_fields =
  begin_load_fields finish_fields showError_fields store_articles_fields

lemma usable_Some: "usable c = Some xs \<longleftrightarrow> c = Some xs \<and> xs \<noteq> []"
  by (auto simp: usable_def split: option.splits)

lemma usable_None: "usable c = None \<longleftrightarrow> c = None \<or> c = Some []"
  by (auto simp: usable_def split: option.splits)


lemma stale_is_absent:
  "parse_blob b = Inr cache \<Longrightarrow> cache flt = Some entry \<Longrightarrow> t - ts entry > CACHE_TTL \<Longrightarrow>
     loadCache b t flt = None"
  by (simp add: loadCache_def loadCache_try_def)


section \<open>Substring search\<close>

lemma startsWith_iff: "startsWith s w \<longleftrightarrow> (\<exists>post. s = w @ post)"
  by (induction s w rule: startsWith.induct) auto

lemma includes_str_iff: "includes_str s w \<longleftrightarrow> (\<exists>pre post. s = pre @ w @ post)"
proof (induction s)
  case Nil
  show ?case by auto
next
  case (Cons c cs)
  show ?case
  proof
    assume "includes_str (c # cs) w"
    then have "startsWith (c # cs) w \<or> includes_str cs w" by simp
    then show "\<exists>pre post. c # cs = pre @ w @ post"
    proof
      assume "startsWith (c # cs) w"
      then obtain post where "c # cs = w @ post" by (auto simp: startsWith_iff)
      then have "c # cs = [] @ w @ post" by simp
      then show ?thesis by blast
    next
      assume "includes_str cs w"
      with Cons.IH obtain pre post where "cs = pre @ w @ post" by auto
      then have "c # cs = (c # pre) @ w @ post" by simp
      then show ?thesis by blast
    qed
  next
    assume "\<exists>pre post. c # cs = pre @ w @ post"
    then obtain pre post where e: "c # cs = pre @ w @ post" by auto
    show "includes_str (c # cs) w"
    proof (cases pre)
      case Nil
      with e have "startsWith (c # cs) w" by (auto simp: startsWith_iff)
      then show ?thesis by simp
    next
      case (Cons p ps)
      with e have "cs = ps @ w @ post" by simp
      with Cons.IH have "includes_str cs w" by auto
      then show ?thesis by simp
    qed
  qed
qed

lemma is_funding_iff:
  "is_funding a \<longleftrightarrow>
     (\<exists>kw \<in> set FUNDING_KEYWORDS. \<exists>pre post. toLowerCase (art_title a) = pre @ kw @ post)"
  by (simp add: is_funding_def list_ex_iff includes_str_iff)

section \<open>The paths of the load operations\<close>

lemma load_v4_miss:
  assumes "force \<or> usable (loadCache (storage sa) t0 flt) = None"
    and "fetchDevTo vw dnet (cfg_devto (cfg_of flt)) = (dreqs, dres)"
    and "fetchHN_v4 vw hnet (cfg_hn (cfg_of flt)) = (hreqs, hn)"
  shows "load_v4 vw dnet hnet t0 t1 flt force sa =
     (let st1 = begin_load flt sa;
          st2 = st1\<lparr>requests := requests st1 @ dreqs @ hreqs\<rparr>
      in case dres of
           Inl e \<Rightarrow> load_failed_v4 t1 flt st2
         | Inr devto \<Rightarrow>
             (let merged = merge devto hn;
                  kept = (if flt = ''funding'' then filter is_funding merged else merged);
                  st3 = st2\<lparr>allArticles := kept\<rparr>
              in if kept \<noteq> []
                 then finish False (store_articles t1 flt kept st3)
                 else
                   (let (freqs, fres) = fetchDevTo vw dnet [''artificial-intelligence''];
                        st4 = st3\<lparr>requests := requests st3 @ freqs\<rparr>
                    in case fres of
                         Inl e \<Rightarrow> load_failed_v4 t1 flt st4
                       | Inr fallback \<Rightarrow>
                           if fallback \<noteq> []
                           then showError LimitedResults
                                  (finish False (st4\<lparr>allArticles := fallback\<rparr>))
                           else st4\<lparr>allArticles := fallback,
                                    grid := [EmptyState CouldNotLoad],
                                    articleCount := NArticles 0\<rparr>)))"
  using assms(1)
  by (cases force; cases dres)
     (simp_all add: load_v4_def Let_def begin_load_fields assms(2,3) usable_def[of None]
        split: prod.splits sum.splits)

lemma load_failed_v4_fields:
  "requests (load_failed_v4 t flt st) = requests st"
  "storage (load_failed_v4 t flt st) = storage st"
  by (simp_all add: load_failed_v4_def state_fields split: option.splits)

lemma fetchDevTo_requests: "fst (fetchDevTo vw net tags) = map DevToTag tags"
  by (simp add: fetchDevTo_def Let_def)

lemma load_failed_v4_empty_state:
  assumes "allArticles (load_failed_v4 t flt st) = []"
  shows "grid (load_failed_v4 t flt st) = [EmptyState FetchFailed] \<and>
         articleCount (load_failed_v4 t flt st) = NArticles 0"
proof (cases "usable (loadCache (storage st) t flt)")
  case None
  then show ?thesis by (simp add: load_failed_v4_def)
next
  case (Some fb)
  then have "fb \<noteq> []" by (simp add: usable_Some)
  moreover from Some have "allArticles (load_failed_v4 t flt st) = fb"
    by (simp add: load_failed_v4_def state_fields)
  ultimately show ?thesis using assms by simp
qed

lemma load_v4_empty_state:
  assumes e: "allArticles (load_v4 vw dnet hnet t0 t1 flt force sa) = []"
  shows "(\<exists>m. grid (load_v4 vw dnet hnet t0 t1 flt force sa) = [EmptyState m]) \<and>
         articleCount (load_v4 vw dnet hnet t0 t1 flt force sa) = NArticles 0"
proof (cases "force \<or> usable (loadCache (storage sa) t0 flt) = None")
  case False
  then obtain c where c: "usable (loadCache (storage sa) t0 flt) = Some c" and nf: "\<not> force"
    by auto
  then have "load_v4 vw dnet hnet t0 t1 flt force sa = finish True ((begin_load flt sa)\<lparr>allArticles := c\<rparr>)"
    by (simp add: load_v4_def Let_def begin_load_fields)
  then have "allArticles (load_v4 vw dnet hnet t0 t1 flt force sa) = c" by (simp add: state_fields)
  moreover from c have "c \<noteq> []" by (simp add: usable_Some)
  ultimately show ?thesis using e by simp
next
  case True
  obtain dreqs dres where d: "fetchDevTo vw dnet (cfg_devto (cfg_of flt)) = (dreqs, dres)"
    by (cases "fetchDevTo vw dnet (cfg_devto (cfg_of flt))")
  obtain hreqs hn where h: "fetchHN_v4 vw hnet (cfg_hn (cfg_of flt)) = (hreqs, hn)"
    by (cases "fetchHN_v4 vw hnet (cfg_hn (cfg_of flt))")
  obtain freqs fres where f: "fetchDevTo vw dnet [''artificial-intelligence''] = (freqs, fres)"
    by (cases "fetchDevTo vw dnet [''artificial-intelligence'']")
  note m = load_v4_miss[OF True d h]
  show ?thesis
  proof (cases dres)
    case (Inl err)
    with m e show ?thesis by (simp add: Let_def load_failed_v4_empty_state)
  next
    case (Inr devto)
    let ?kept = "if flt = ''funding'' then filter is_funding (merge devto hn) else merge devto hn"
    show ?thesis
    proof (cases "?kept = []")
      case False
      with m Inr have "allArticles (load_v4 vw dnet hnet t0 t1 flt force sa) = ?kept"
        by (simp add: Let_def state_fields)
      with False e show ?thesis by simp
    next
      case True
      show ?thesis
      proof (cases fres)
        case (Inl err)
        with m Inr True f e show ?thesis by (simp add: Let_def load_failed_v4_empty_state)
      next
        case fb: (Inr fallback)
        show ?thesis
        proof (cases "fallback = []")
          case True
          with m Inr \<open>?kept = []\<close> f fb show ?thesis by (simp add: Let_def)
        next
          case False
          with m Inr \<open>?kept = []\<close> f fb
          have "allArticles (load_v4 vw dnet hnet t0 t1 flt force sa) = fallback"
            by (simp add: Let_def state_fields)
          with False e show ?thesis by simp
        qed
      qed
    qed
  qed
qed

lemma ingest_batches_ok:
  "Inr NotArray \<notin> set bs \<Longrightarrow> \<exists>acc'. ingest_batches acc bs = Inr acc'"
proof (induction acc bs rule: ingest_batches.induct)
  case (1 acc)
  show ?case by simp
next
  case (2 acc e bs)
  then show ?case by simp
next
  case (3 acc bs)
  then show ?case by simp
next
  case (4 acc hs bs)
  then show ?case by simp
qed

lemma fetchOne_NotArray:
  "fetchOne net q d = Inr NotArray \<longleftrightarrow> net (HNQuery q d) = Ok NotArray"
  "Inr NotArray = fetchOne net q d \<longleftrightarrow> net (HNQuery q d) = Ok NotArray"
  by (auto simp: fetchOne_def split: response.splits)


lemma load_v3_miss:
  assumes "\<not> isLoading st" "force \<or> usable (loadCache (storage st) t0 flt) = None"
    and "fetchAll net flt = (reqs, r)"
  shows "load_v3 net t0 t1 flt force st =
     (let st1 = begin_load flt (st\<lparr>isLoading := True\<rparr>);
          st2 = st1\<lparr>requests := requests st1 @ reqs\<rparr>
      in (case r of
            Inr arts \<Rightarrow>
              finish False
                ((if arts \<noteq> [] then store_articles t1 flt arts else (\<lambda>s. s))
                   (st2\<lparr>allArticles := arts\<rparr>))
          | Inl e \<Rightarrow>
              (case usable (loadCache (storage st2) t1 flt) of
                 Some fb \<Rightarrow> finish True (showError ShowingCached (st2\<lparr>allArticles := fb\<rparr>))
               | None \<Rightarrow> st2\<lparr>grid := [EmptyState FetchFailed], articleCount := NArticles 0\<rparr>))
         \<lparr>isLoading := False\<rparr>)"
  using assms(2)
  by (cases force; cases r)
     (simp_all add: load_v3_def Let_def begin_load_fields assms(1,3) usable_def[of None]
        split: option.splits)










section \<open>What a run that fetched holds\<close>

lemma length_dedupe_le: "length (dedupe key seen xs) \<le> length xs"
  by (induction xs arbitrary: seen) (auto simp: le_SucI)

lemma ingest_devto_eq:
  "ingest_devto vw (seen, results) items =
     (seen \<union> dv_id ` set (filter (\<lambda>a. truthy (dv_title a)) items),
      results @ map (devto_article vw)
                  (dedupe dv_id seen (filter (\<lambda>a. truthy (dv_title a)) items)))"
proof (induction items arbitrary: seen results)
  case Nil
  show ?case by simp
next
  case (Cons a as)
  show ?case by (cases "dv_id a \<in> seen"; cases "truthy (dv_title a)") (auto simp: Cons.IH)
qed

lemma fetchDevTo_one:
  assumes "net (DevToTag tag) = Ok (Array items)"
  shows "fetchDevTo vw net [tag] =
     ([DevToTag tag],
      Inr (map (devto_article vw) (dedupe dv_id {} (filter (\<lambda>a. truthy (dv_title a)) items))))"
  using assms by (simp add: fetchDevTo_def Let_def ingest_devto_eq)

lemma fetchDevTo_one_failed:
  assumes "net (DevToTag tag) = Failed"
  shows "fetchDevTo vw net [tag] = ([DevToTag tag], Inr [])"
  using assms by (simp add: fetchDevTo_def Let_def)

lemma loadArticles_fetched:
  assumes "forceRefresh \<or> loadCache (storage st) t0 flt = None"
    and "snd (fetchArticles net flt) = Inr out"
  shows "allArticles (loadArticles net t0 t1 flt forceRefresh st) = out"
proof -
  obtain reqs where f: "fetchArticles net flt = (reqs, Inr out)"
    using assms(2) by (cases "fetchArticles net flt") simp
  from assms(1) show ?thesis
    by (cases forceRefresh)
       (simp_all add: loadArticles_def Let_def begin_load_fields f state_fields)
qed

lemma load_v3_fetched:
  assumes "\<not> isLoading st" "force \<or> usable (loadCache (storage st) t0 flt) = None"
    and "snd (fetchAll net flt) = Inr out"
  shows "allArticles (load_v3 net t0 t1 flt force st) = out"
proof -
  obtain reqs where f: "fetchAll net flt = (reqs, Inr out)"
    using assms(3) by (cases "fetchAll net flt") simp
  show ?thesis
    unfolding load_v3_miss[OF assms(1,2) f] by (simp add: Let_def state_fields)
qed

lemma load_v4_ranked:
  assumes "force \<or> usable (loadCache (storage sa) t0 flt) = None"
    and "snd (fetchDevTo vw dnet (cfg_devto (cfg_of flt))) = Inr devto"
    and "snd (fetchHN_v4 vw hnet (cfg_hn (cfg_of flt))) = hn"
    and "(if flt = ''funding'' then filter is_funding (merge devto hn) else merge devto hn) \<noteq> []"
  shows "allArticles (load_v4 vw dnet hnet t0 t1 flt force sa) =
           (if flt = ''funding'' then filter is_funding (merge devto hn) else merge devto hn)"
proof -
  obtain dreqs where d: "fetchDevTo vw dnet (cfg_devto (cfg_of flt)) = (dreqs, Inr devto)"
    using assms(2) by (cases "fetchDevTo vw dnet (cfg_devto (cfg_of flt))") simp
  obtain hreqs where h: "fetchHN_v4 vw hnet (cfg_hn (cfg_of flt)) = (hreqs, hn)"
    using assms(3) by (cases "fetchHN_v4 vw hnet (cfg_hn (cfg_of flt))") simp
  show ?thesis
    unfolding load_v4_miss[OF assms(1) d h] using assms(4)
    by (simp add: Let_def state_fields)
qed

lemma load_v4_broad:
  assumes "force \<or> usable (loadCache (storage sa) t0 flt) = None"
    and "snd (fetchDevTo vw dnet (cfg_devto (cfg_of flt))) = Inr devto"
    and "snd (fetchHN_v4 vw hnet (cfg_hn (cfg_of flt))) = hn"
    and "(if flt = ''funding'' then filter is_funding (merge devto hn) else merge devto hn) = []"
    and "dnet (DevToTag ''artificial-intelligence'') = Ok (Array items)"
  shows "allArticles (load_v4 vw dnet hnet t0 t1 flt force sa) =
           map (devto_article vw) (dedupe dv_id {} (filter (\<lambda>a. truthy (dv_title a)) items))"
proof -
  obtain dreqs where d: "fetchDevTo vw dnet (cfg_devto (cfg_of flt)) = (dreqs, Inr devto)"
    using assms(2) by (cases "fetchDevTo vw dnet (cfg_devto (cfg_of flt))") simp
  obtain hreqs where h: "fetchHN_v4 vw hnet (cfg_hn (cfg_of flt)) = (hreqs, hn)"
    using assms(3) by (cases "fetchHN_v4 vw hnet (cfg_hn (cfg_of flt))") simp
  show ?thesis
    unfolding load_v4_miss[OF assms(1) d h] using assms(4)
    by (simp add: Let_def state_fields fetchDevTo_one[where net = dnet, OF assms(5)])
qed

lemma load_v4_broad_failed:
  assumes "force \<or> usable (loadCache (storage sa) t0 flt) = None"
    and "snd (fetchDevTo vw dnet (cfg_devto (cfg_of flt))) = Inr devto"
    and "snd (fetchHN_v4 vw hnet (cfg_hn (cfg_of flt))) = hn"
    and "(if flt = ''funding'' then filter is_funding (merge devto hn) else merge devto hn) = []"
    and "dnet (DevToTag ''artificial-intelligence'') = Failed"
  shows "allArticles (load_v4 vw dnet hnet t0 t1 flt force sa) = []"
proof -
  obtain dreqs where d: "fetchDevTo vw dnet (cfg_devto (cfg_of flt)) = (dreqs, Inr devto)"
    using assms(2) by (cases "fetchDevTo vw dnet (cfg_devto (cfg_of flt))") simp
  obtain hreqs where h: "fetchHN_v4 vw hnet (cfg_hn (cfg_of flt)) = (hreqs, hn)"
    using assms(3) by (cases "fetchHN_v4 vw hnet (cfg_hn (cfg_of flt))") simp
  show ?thesis
    unfolding load_v4_miss[OF assms(1) d h] using assms(4)
    by (simp add: Let_def state_fields fetchDevTo_one_failed[where net = dnet, OF assms(5)])
qed

section \<open>The sample flood\<close>

lemma post_ids_distinct: "distinct (map dv_id flood)"
proof -
  have "inj_on (\<lambda>n. replicate (Suc n) CHR ''7'') (set [0..<81])"
    by (rule inj_onI) (metis length_replicate nat.inject)
  then have "distinct (map (\<lambda>n. replicate (Suc n) CHR ''7'') [0..<81])"
    by (simp add: distinct_map)
  then show ?thesis by (simp add: flood_def post_def comp_def)
qed

lemma flood_titled: "filter (\<lambda>a. truthy (dv_title a)) flood = flood"
  by (simp add: flood_def post_def truthy_def filter_map comp_def)

lemma flood_kept: "dedupe dv_id {} (filter (\<lambda>a. truthy (dv_title a)) flood) = flood"
  by (simp add: flood_titled dedupe_distinct_id[OF post_ids_distinct])

lemma length_flood: "length flood = 81"
  by (simp add: flood_def)

text \<open>The definitions a concrete run unfolds.\<close>

lemmas run_defs =
  loadCache_def loadCache_try_def parse_blob_def saveCache_def usable_def CACHE_TTL_def
  begin_load_def showSkeletons_def finish_def renderPage_def showError_def store_articles_def
  PAGE_SIZE_def MAX_RESULTS_def sort_desc_def score_def truthy_def
  query_of_def TOPIC_QUERIES_def TOPIC_QUERIES_all_def fetchHN_v2_def rank_v2_def
  fetchArticles_def loadArticles_def
  queries_of_def FILTER_QUERIES_def FILTER_QUERIES_all_def fetchOne_def fetchAll_def load_v3_def
  cfg_of_def FILTERS_def FILTERS_all_def fetchDevTo_def fetchHN_v4_def devto_article_def
  hn_article_def merge_def title_key_def normalize_def trim_def toLowerCase_def lower_of_def
  is_funding_def FUNDING_KEYWORDS_def load_failed_v4_def load_v4_def
  boot_def offline_def answering_def bad_json_def plain_view_def llm_store_def
  gpt_hit_def llm_hit_def gpt_hit_again_def raises_devto_def raises_hn_def chatbot_devto_def
  agents_hn_def rag_item_def raises_hit_def numbered_def gpt_hn_def rag_devto_def
  broad_only_def agents_item_def agents_devto_def inputs_v2_def inputs_v3_def round_v3_def titled_def fulfilled_hits_def
  count_by_def Let_def

section \<open>Claims\<close>

text \<open>
  Claim C1. When every upstream query of a run fails, the cached entry of the filter
  is to be served with the "showing cached articles" notice. The single-query
  generation does so: a failed request makes \<^verbatim>\<open>fetchHN\<close> throw, and the \<^verbatim>\<open>catch\<close> branch
  of \<^verbatim>\<open>loadArticles\<close> serves the entry. In the multi-query and in the two-source
  generation the fetch step turns every failed request into an empty batch and
  returns the empty list, so the \<^verbatim>\<open>catch\<close> branch of \<^verbatim>\<open>load\<close>, which holds the fallback
  and its notice, is not reached. On a forced refresh with every request failing,
  over an entry for \<^verbatim>\<open>llm\<close> written ten minutes earlier, \<^verbatim>\<open>load\<close> serves nothing: the
  list is empty, the empty state is shown, and there is no notice.
\<close>

theorem all_queries_failing_skips_cache:
  "loadCache (llm_store [gpt_hit]) 600000 ''llm'' = Some [gpt_hit] \<and>
   snd (fetchAll offline ''llm'') = Inr [] \<and>
   allArticles (load_v3 offline 600000 600000 ''llm'' True (boot (llm_store [gpt_hit]))) = [] \<and>
   errorBanner (load_v3 offline 600000 600000 ''llm'' True (boot (llm_store [gpt_hit]))) = None \<and>
   grid (load_v3 offline 600000 600000 ''llm'' True (boot (llm_store [gpt_hit])))
     = [EmptyState NoArticlesFound] \<and>
   loadCache (llm_store [raises_hn]) 600000 ''llm'' = Some [raises_hn] \<and>
   snd (fetchDevTo plain_view offline (cfg_devto (cfg_of ''llm''))) = Inr [] \<and>
   snd (fetchHN_v4 plain_view offline (cfg_hn (cfg_of ''llm''))) = [] \<and>
   snd (fetchDevTo plain_view offline [''artificial-intelligence'']) = Inr [] \<and>
   allArticles (load_v4 plain_view offline offline 600000 600000 ''llm'' True
                  (boot (llm_store [raises_hn]))) = [] \<and>
   errorBanner (load_v4 plain_view offline offline 600000 600000 ''llm'' True
                  (boot (llm_store [raises_hn]))) = None \<and>
   grid (load_v4 plain_view offline offline 600000 600000 ''llm'' True
           (boot (llm_store [raises_hn]))) = [EmptyState CouldNotLoad] \<and>
   snd (fetchArticles offline ''llm'') = Inl FetchError \<and>
   allArticles (loadArticles offline 600000 600000 ''llm'' True (boot (llm_store [gpt_hit])))
     = [gpt_hit] \<and>
   errorBanner (loadArticles offline 600000 600000 ''llm'' True (boot (llm_store [gpt_hit])))
     = Some ShowingCached"
  by (simp add: run_defs)

text \<open>
  Claim C2, as amended. The output holds at most one article for any deduplication
  key (the \<^verbatim>\<open>objectID\<close> in \<open>fetchArticles\<close> and \<open>fetchAll\<close>, the normalized title prefix in
  \<open>merge\<close>), and every output article is an input article. For every input article
  the output holds exactly one article with its key whenever the deduplicated list
  is not longer than the result cap, so that nothing is cut off.
\<close>

theorem at_most_one_per_key:
  "(count_by title_key k (merge devto hn) \<le> 1 \<and>
    set (merge devto hn) \<subseteq> set (devto @ hn) \<and>
    (length (dedupe title_key {} (devto @ hn)) \<le> 80 \<and> x \<in> set (devto @ hn) \<longrightarrow>
       count_by title_key (title_key x) (merge devto hn) = 1)) \<and>
   (\<forall>out. snd (fetchAll net flt) = Inr out \<longrightarrow>
      count_by objectID i out \<le> 1 \<and>
      set out \<subseteq> set (inputs_v3 net flt) \<and>
      (length (dedupe objectID {} (inputs_v3 net flt)) \<le> 80 \<and> h \<in> set (inputs_v3 net flt) \<longrightarrow>
         count_by objectID (objectID h) out = 1)) \<and>
   (\<forall>out. snd (fetchArticles net flt) = Inr out \<longrightarrow>
      count_by objectID i out \<le> 1 \<and>
      set out \<subseteq> set (inputs_v2 net flt) \<and>
      (length (dedupe objectID {} (inputs_v2 net flt)) \<le> 60 \<and> h \<in> set (inputs_v2 net flt) \<longrightarrow>
         count_by objectID (objectID h) out = 1))"
proof (intro conjI allI impI)
  show "count_by title_key k (merge devto hn) \<le> 1"
    unfolding merge_def by (rule ranked_count_le_one)
  show "set (merge devto hn) \<subseteq> set (devto @ hn)"
    unfolding merge_def by (rule ranked_subset)
  show "count_by title_key (title_key x) (merge devto hn) = 1"
    if "length (dedupe title_key {} (devto @ hn)) \<le> 80 \<and> x \<in> set (devto @ hn)"
    using that unfolding merge_def by (simp add: ranked_count_one)
next
  fix out assume "snd (fetchAll net flt) = Inr out"
  then have o: "out = take 80 (sort_desc score (dedupe objectID {} (inputs_v3 net flt)))"
    by (rule fetchAll_output)
  show "count_by objectID i out \<le> 1" unfolding o by (rule ranked_count_le_one)
  show "set out \<subseteq> set (inputs_v3 net flt)" unfolding o by (rule ranked_subset)
  show "count_by objectID (objectID h) out = 1"
    if "length (dedupe objectID {} (inputs_v3 net flt)) \<le> 80 \<and> h \<in> set (inputs_v3 net flt)"
    using that unfolding o by (simp add: ranked_count_one)
next
  fix out assume "snd (fetchArticles net flt) = Inr out"
  then have "out = rank_v2 (inputs_v2 net flt)" by (rule fetchArticles_output)
  then have o: "out = take 60 (sort_desc score (dedupe objectID {} (inputs_v2 net flt)))"
    by (simp add: rank_v2_def MAX_RESULTS_def)
  show "count_by objectID i out \<le> 1" unfolding o by (rule ranked_count_le_one)
  show "set out \<subseteq> set (inputs_v2 net flt)" unfolding o by (rule ranked_subset)
  show "count_by objectID (objectID h) out = 1"
    if "length (dedupe objectID {} (inputs_v2 net flt)) \<le> 60 \<and> h \<in> set (inputs_v2 net flt)"
    using that unfolding o by (simp add: ranked_count_one)
qed

text \<open>
  Claim C2 as stated fails: the two articles of the specification's scenario share
  their normalized title, and merged behind 81 articles of higher score neither of
  them is in the output.
\<close>

theorem both_duplicates_truncated_counterexample:
  "title_key raises_devto = title_key raises_hn \<and>
   count_by title_key (title_key raises_hn) (merge (crowd @ [raises_devto]) [raises_hn]) = 0"
proof -
  have "count_by title_key ''openai raises 500m'' (take 80 crowd) = 0"
  proof -
    have "''openai raises 500m'' \<notin> title_key ` set (take 80 crowd)"
      using raises_key_not_crowd set_take_subset[of 80 crowd] by blast
    then show ?thesis by (force simp: count_by_def filter_empty_conv image_iff)
  qed
  then show ?thesis by (simp add: raises_key merge_crowd)
qed

text \<open>
  The theorem of C2 on the scenario's two articles among four, and on a network that
  repeats an \<^verbatim>\<open>objectID\<close> in every response.
\<close>

theorem at_most_one_per_key_witness:
  "length (dedupe title_key {} ([raises_devto, chatbot_devto] @ [raises_hn, agents_hn])) \<le> 80 \<and>
   raises_hn \<in> set ([raises_devto, chatbot_devto] @ [raises_hn, agents_hn]) \<and>
   title_key raises_hn = title_key raises_devto \<and>
   count_by title_key (title_key raises_hn) (merge [raises_devto, chatbot_devto] [raises_hn, agents_hn]) = 1 \<and>
   snd (fetchAll (answering [gpt_hit, llm_hit, gpt_hit_again]) ''robotics'') = Inr [llm_hit, gpt_hit] \<and>
   objectID gpt_hit_again = objectID gpt_hit \<and>
   gpt_hit_again \<in> set (inputs_v3 (answering [gpt_hit, llm_hit, gpt_hit_again]) ''robotics'') \<and>
   count_by objectID (objectID gpt_hit_again) [llm_hit, gpt_hit] = 1 \<and>
   snd (fetchArticles (answering [gpt_hit, llm_hit, gpt_hit_again]) ''robotics'') = Inr [llm_hit, gpt_hit] \<and>
   gpt_hit_again \<in> set (inputs_v2 (answering [gpt_hit, llm_hit, gpt_hit_again]) ''robotics'')"
proof -
  let ?net = "answering [gpt_hit, llm_hit, gpt_hit_again]"
  have k: "title_key raises_hn = title_key raises_devto" by (simp add: raises_key)
  have l4: "length (dedupe title_key {} ([raises_devto, chatbot_devto] @ [raises_hn, agents_hn])) \<le> 80"
    by (simp add: run_defs)
  have m4: "raises_hn \<in> set ([raises_devto, chatbot_devto] @ [raises_hn, agents_hn])" by simp
  have o3: "snd (fetchAll ?net ''robotics'') = Inr [llm_hit, gpt_hit]" by (simp add: run_defs)
  have i3: "inputs_v3 ?net ''robotics'' =
              [gpt_hit, llm_hit, gpt_hit_again, gpt_hit, llm_hit, gpt_hit_again,
               gpt_hit, llm_hit, gpt_hit_again, gpt_hit, llm_hit, gpt_hit_again,
               gpt_hit, llm_hit, gpt_hit_again, gpt_hit, llm_hit, gpt_hit_again]"
    by (simp add: run_defs)
  have o2: "snd (fetchArticles ?net ''robotics'') = Inr [llm_hit, gpt_hit]" by (simp add: run_defs)
  have i2: "inputs_v2 ?net ''robotics'' = [gpt_hit, llm_hit, gpt_hit_again]" by (simp add: run_defs)
  have l3: "length (dedupe objectID {} (inputs_v3 ?net ''robotics'')) \<le> 80"
    unfolding i3 by (simp add: run_defs)
  have l2: "length (dedupe objectID {} (inputs_v2 ?net ''robotics'')) \<le> 60"
    unfolding i2 by (simp add: run_defs)
  have id: "objectID gpt_hit_again = objectID gpt_hit" by (simp add: run_defs)
  note inst = at_most_one_per_key
    [where devto = "[raises_devto, chatbot_devto]" and hn = "[raises_hn, agents_hn]"
       and x = raises_hn and net = ?net and flt = "''robotics''" and h = gpt_hit_again]
  from inst l4 m4 have
    "count_by title_key (title_key raises_hn) (merge [raises_devto, chatbot_devto] [raises_hn, agents_hn]) = 1"
    by blast
  moreover from inst o3 l3 i3 have "count_by objectID (objectID gpt_hit_again) [llm_hit, gpt_hit] = 1"
    by simp
  ultimately show ?thesis using k l4 o3 o2 i3 i2 id by simp
qed

text \<open>
  Claim C3, as amended. Without a forced refresh, a fresh entry for the filter is
  served with no network request and unchanged, and the storage is not written: for
  any list in the single-query generation, and for a non-empty list in the
  multi-query generation (when no load is in progress) and in the two-source
  generation.
\<close>

theorem fresh_entry_served_without_network:
  "(\<not> forceRefresh \<and> loadCache (storage st) t0 flt = Some c \<longrightarrow>
      requests (loadArticles net t0 t1 flt forceRefresh st) = requests st \<and>
      allArticles (loadArticles net t0 t1 flt forceRefresh st) = c \<and>
      storage (loadArticles net t0 t1 flt forceRefresh st) = storage st) \<and>
   (\<not> isLoading st \<and> \<not> force \<and> loadCache (storage st) t0 flt = Some c \<and> c \<noteq> [] \<longrightarrow>
      requests (load_v3 net t0 t1 flt force st) = requests st \<and>
      allArticles (load_v3 net t0 t1 flt force st) = c \<and>
      storage (load_v3 net t0 t1 flt force st) = storage st) \<and>
   (\<not> force \<and> loadCache (storage sa) t0 flt = Some ca \<and> ca \<noteq> [] \<longrightarrow>
      requests (load_v4 vw dnet hnet t0 t1 flt force sa) = requests sa \<and>
      allArticles (load_v4 vw dnet hnet t0 t1 flt force sa) = ca \<and>
      storage (load_v4 vw dnet hnet t0 t1 flt force sa) = storage sa)"
proof (intro conjI impI)
  assume "\<not> forceRefresh \<and> loadCache (storage st) t0 flt = Some c"
  then have h: "loadArticles net t0 t1 flt forceRefresh st =
                  finish True ((begin_load flt st)\<lparr>allArticles := c\<rparr>)"
    by (simp add: loadArticles_def Let_def begin_load_fields)
  show "requests (loadArticles net t0 t1 flt forceRefresh st) = requests st"
    by (simp add: h state_fields)
  show "allArticles (loadArticles net t0 t1 flt forceRefresh st) = c"
    by (simp add: h state_fields)
  show "storage (loadArticles net t0 t1 flt forceRefresh st) = storage st"
    by (simp add: h state_fields)
next
  assume a: "\<not> isLoading st \<and> \<not> force \<and> loadCache (storage st) t0 flt = Some c \<and> c \<noteq> []"
  then have "usable (loadCache (storage st) t0 flt) = Some c" by (simp add: usable_Some)
  with a have h: "load_v3 net t0 t1 flt force st =
                  (finish True ((begin_load flt (st\<lparr>isLoading := True\<rparr>))\<lparr>allArticles := c\<rparr>))\<lparr>isLoading := False\<rparr>"
    by (simp add: load_v3_def Let_def begin_load_fields)
  show "requests (load_v3 net t0 t1 flt force st) = requests st"
    by (simp add: h state_fields)
  show "allArticles (load_v3 net t0 t1 flt force st) = c"
    by (simp add: h state_fields)
  show "storage (load_v3 net t0 t1 flt force st) = storage st"
    by (simp add: h state_fields)
next
  assume a: "\<not> force \<and> loadCache (storage sa) t0 flt = Some ca \<and> ca \<noteq> []"
  then have "usable (loadCache (storage sa) t0 flt) = Some ca" by (simp add: usable_Some)
  with a have h: "load_v4 vw dnet hnet t0 t1 flt force sa =
                  finish True ((begin_load flt sa)\<lparr>allArticles := ca\<rparr>)"
    by (simp add: load_v4_def Let_def begin_load_fields)
  show "requests (load_v4 vw dnet hnet t0 t1 flt force sa) = requests sa"
    by (simp add: h state_fields)
  show "allArticles (load_v4 vw dnet hnet t0 t1 flt force sa) = ca"
    by (simp add: h state_fields)
  show "storage (load_v4 vw dnet hnet t0 t1 flt force sa) = storage sa"
    by (simp add: h state_fields)
qed

text \<open>
  Claim C3 as stated fails in the multi-query generation: over a fresh entry for
  \<^verbatim>\<open>llm\<close> whose list is empty, an unforced load issues all ten requests of the filter.
\<close>

theorem fresh_empty_entry_refetched_counterexample:
  "loadCache (storage (boot (llm_store ([] :: hit list)))) 600000 ''llm'' = Some [] \<and>
   requests (boot (llm_store ([] :: hit list))) = [] \<and>
   requests (load_v3 offline 600000 600000 ''llm'' False (boot (llm_store []))) =
     [HNQuery ''large language model'' 1, HNQuery ''LLM'' 1, HNQuery ''ChatGPT'' 1,
      HNQuery ''Claude AI'' 1, HNQuery ''Gemini AI'' 1,
      HNQuery ''large language model'' 3, HNQuery ''LLM'' 3, HNQuery ''ChatGPT'' 3,
      HNQuery ''Claude AI'' 3, HNQuery ''Gemini AI'' 3]"
  by (simp add: run_defs)

text \<open>
  The theorem of C3 at concrete runs: an entry written ten minutes earlier is served
  by each generation on a dead network with an empty request log.
\<close>

theorem fresh_entry_served_without_network_witness:
  "loadCache (storage (boot (llm_store [gpt_hit]))) 600000 ''llm'' = Some [gpt_hit] \<and>
   requests (loadArticles offline 600000 600000 ''llm'' False (boot (llm_store [gpt_hit]))) = [] \<and>
   allArticles (loadArticles offline 600000 600000 ''llm'' False (boot (llm_store [gpt_hit])))
     = [gpt_hit] \<and>
   requests (load_v3 offline 600000 600000 ''llm'' False (boot (llm_store [gpt_hit]))) = [] \<and>
   allArticles (load_v3 offline 600000 600000 ''llm'' False (boot (llm_store [gpt_hit])))
     = [gpt_hit] \<and>
   loadCache (storage (boot (llm_store [raises_hn]))) 600000 ''llm'' = Some [raises_hn] \<and>
   requests (load_v4 plain_view offline offline 600000 600000 ''llm'' False
               (boot (llm_store [raises_hn]))) = [] \<and>
   allArticles (load_v4 plain_view offline offline 600000 600000 ''llm'' False
               (boot (llm_store [raises_hn]))) = [raises_hn]"
proof -
  have c: "loadCache (storage (boot (llm_store [gpt_hit]))) 600000 ''llm'' = Some [gpt_hit]"
    by (simp add: run_defs)
  have ca: "loadCache (storage (boot (llm_store [raises_hn]))) 600000 ''llm'' = Some [raises_hn]"
    by (simp add: run_defs)
  have nl: "\<not> isLoading (boot (llm_store [gpt_hit]))"
    and r: "requests (boot (llm_store [gpt_hit])) = []"
    and ra: "requests (boot (llm_store [raises_hn])) = []"
    by (simp_all add: boot_def)
  note inst = fresh_entry_served_without_network
    [where forceRefresh = False and force = False and st = "boot (llm_store [gpt_hit])"
       and c = "[gpt_hit]" and ?t0.0 = 600000 and ?t1.0 = 600000 and flt = "''llm''"
       and net = offline and sa = "boot (llm_store [raises_hn])" and ca = "[raises_hn]"
       and vw = plain_view and dnet = offline and hnet = offline]
  from inst c ca nl r ra show ?thesis by simp
qed

text \<open>
  Claim C4. \<open>loadCache\<close> returns a list exactly when the blob parses, holds an entry for
  the filter, and the entry's age is at most \<open>CACHE_TTL\<close> (one hour), and then it is the
  entry's list. An entry written at \<open>T\<close> is returned at \<open>T + CACHE_TTL - eps\<close> and absent at
  \<open>T + CACHE_TTL + eps\<close>. Without an entry the result is absent. On a corrupt blob the
  \<^verbatim>\<open>try\<close> body raises and \<open>loadCache\<close> still returns absent; its result type has no
  error, so nothing is thrown past it.
\<close>

theorem loadCache_contract:
  "(loadCache b now flt = Some arts \<longleftrightarrow>
      (\<exists>cache e. parse_blob b = Inr cache \<and> cache flt = Some e \<and>
                 now - ts e \<le> CACHE_TTL \<and> articles e = arts)) \<and>
   (b \<noteq> Corrupt \<and> 0 < eps \<longrightarrow>
      loadCache (saveCache b True T flt arts) (T + CACHE_TTL - eps) flt = Some arts \<and>
      loadCache (saveCache b True T flt arts) (T + CACHE_TTL + eps) flt = None) \<and>
   ((\<exists>cache. parse_blob b = Inr cache \<and> cache flt = None) \<longrightarrow> loadCache b now flt = None) \<and>
   (loadCache_try Corrupt now flt = Inl SyntaxError \<and> loadCache Corrupt now flt = None)"
  by (cases b) (auto simp: loadCache_def loadCache_try_def parse_blob_def saveCache_def split: option.splits)

text \<open>
  The theorem of C4 on an entry written at 5000 into an empty storage, one
  millisecond inside and outside the TTL, and on a store that holds only \<^verbatim>\<open>llm\<close>.
\<close>

theorem loadCache_contract_witness:
  "NoItem \<noteq> (Corrupt :: hit blob) \<and> (0::int) < 1 \<and>
   loadCache (saveCache NoItem True 5000 ''llm'' [gpt_hit]) (5000 + CACHE_TTL - 1) ''llm''
     = Some [gpt_hit] \<and>
   loadCache (saveCache NoItem True 5000 ''llm'' [gpt_hit]) (5000 + CACHE_TTL + 1) ''llm'' = None \<and>
   parse_blob (llm_store [gpt_hit]) = Inr ((\<lambda>k. None)(''llm'' \<mapsto> \<lparr>ts = 0, articles = [gpt_hit]\<rparr>)) \<and>
   loadCache (llm_store [gpt_hit]) 600000 ''llm'' = Some [gpt_hit] \<and>
   loadCache (llm_store [gpt_hit]) 600000 ''research'' = None"
proof -
  note inst = loadCache_contract
    [where b = NoItem and eps = 1 and T = 5000 and flt = "''llm''" and arts = "[gpt_hit]"
       and now = 0, THEN conjunct2, THEN conjunct1]
  note inst2 = loadCache_contract
    [where b = "llm_store [gpt_hit]" and now = 600000 and flt = "''llm''" and arts = "[gpt_hit]",
      THEN conjunct1]
  note inst3 = loadCache_contract
    [where b = "llm_store [gpt_hit]" and now = 600000 and flt = "''research''",
      THEN conjunct2, THEN conjunct2, THEN conjunct1]
  have p: "parse_blob (llm_store [gpt_hit]) = Inr ((\<lambda>k. None)(''llm'' \<mapsto> \<lparr>ts = 0, articles = [gpt_hit]\<rparr>))"
    by (simp add: parse_blob_def llm_store_def)
  have "loadCache (llm_store [gpt_hit]) 600000 ''llm'' = Some [gpt_hit]"
    using inst2 p by (simp add: CACHE_TTL_def)
  moreover have "loadCache (llm_store [gpt_hit]) 600000 ''research'' = None"
    using inst3 p by simp
  ultimately show ?thesis using inst p by simp
qed

text \<open>
  Claim C5. The funding predicate holds of an article exactly when some funding
  keyword is a substring of its lower-cased title. On a run for the filter
  \<^verbatim>\<open>funding\<close> that fetches, the predicate filters the list that \<open>merge\<close> returned
  (merged, sorted, truncated). If articles remain they are the result, with no
  banner. If none remains, the broader dev.to query \<^verbatim>\<open>artificial-intelligence\<close> is issued
  once more: its articles become the result under the "limited results" banner, or,
  if it has none, the explicit empty state is shown; if it throws, the cache is
  tried and otherwise the failure state is shown. Whatever the filter, a run that
  ends with an empty list shows an explicit empty state and a count of zero.
\<close>

theorem funding_filter_falls_back:
  "(is_funding a \<longleftrightarrow>
      (\<exists>kw \<in> set FUNDING_KEYWORDS. \<exists>pre post. toLowerCase (art_title a) = pre @ kw @ post)) \<and>
   ((force \<or> usable (loadCache (storage sa) t0 ''funding'') = None) \<and>
    fetchDevTo vw dnet (cfg_devto (cfg_of ''funding'')) = (dreqs, Inr devto) \<and>
    fetchHN_v4 vw hnet (cfg_hn (cfg_of ''funding'')) = (hreqs, hn) \<longrightarrow>
      (filter is_funding (merge devto hn) \<noteq> [] \<longrightarrow>
         allArticles (load_v4 vw dnet hnet t0 t1 ''funding'' force sa)
           = filter is_funding (merge devto hn) \<and>
         errorBanner (load_v4 vw dnet hnet t0 t1 ''funding'' force sa) = None \<and>
         requests (load_v4 vw dnet hnet t0 t1 ''funding'' force sa) = requests sa @ dreqs @ hreqs) \<and>
      (filter is_funding (merge devto hn) = [] \<longrightarrow>
         requests (load_v4 vw dnet hnet t0 t1 ''funding'' force sa)
           = requests sa @ dreqs @ hreqs @ [DevToTag ''artificial-intelligence''] \<and>
         (case snd (fetchDevTo vw dnet [''artificial-intelligence'']) of
            Inr fb \<Rightarrow>
              allArticles (load_v4 vw dnet hnet t0 t1 ''funding'' force sa) = fb \<and>
              (if fb \<noteq> []
               then errorBanner (load_v4 vw dnet hnet t0 t1 ''funding'' force sa) = Some LimitedResults
               else grid (load_v4 vw dnet hnet t0 t1 ''funding'' force sa) = [EmptyState CouldNotLoad] \<and>
                    articleCount (load_v4 vw dnet hnet t0 t1 ''funding'' force sa) = NArticles 0)
          | Inl e \<Rightarrow>
              (case usable (loadCache (storage sa) t1 ''funding'') of
                 Some c \<Rightarrow>
                   allArticles (load_v4 vw dnet hnet t0 t1 ''funding'' force sa) = c \<and>
                   errorBanner (load_v4 vw dnet hnet t0 t1 ''funding'' force sa) = Some ShowingCached
               | None \<Rightarrow>
                   grid (load_v4 vw dnet hnet t0 t1 ''funding'' force sa) = [EmptyState FetchFailed] \<and>
                   articleCount (load_v4 vw dnet hnet t0 t1 ''funding'' force sa) = NArticles 0)))) \<and>
   (allArticles (load_v4 vw dnet hnet t0 t1 flt force sa) = [] \<longrightarrow>
      (\<exists>m. grid (load_v4 vw dnet hnet t0 t1 flt force sa) = [EmptyState m]) \<and>
      articleCount (load_v4 vw dnet hnet t0 t1 flt force sa) = NArticles 0)"
proof (intro conjI impI)
  show "is_funding a \<longleftrightarrow>
      (\<exists>kw \<in> set FUNDING_KEYWORDS. \<exists>pre post. toLowerCase (art_title a) = pre @ kw @ post)"
    by (rule is_funding_iff)
next
  assume a: "(force \<or> usable (loadCache (storage sa) t0 ''funding'') = None) \<and>
    fetchDevTo vw dnet (cfg_devto (cfg_of ''funding'')) = (dreqs, Inr devto) \<and>
    fetchHN_v4 vw hnet (cfg_hn (cfg_of ''funding'')) = (hreqs, hn)"
  then have m: "load_v4 vw dnet hnet t0 t1 ''funding'' force sa = 
     (let st1 = begin_load ''funding'' sa;
          st2 = st1\<lparr>requests := requests st1 @ dreqs @ hreqs\<rparr>;
          kept = filter is_funding (merge devto hn);
          st3 = st2\<lparr>allArticles := kept\<rparr>
      in if kept \<noteq> []
         then finish False (store_articles t1 ''funding'' kept st3)
         else
           (let (freqs, fres) = fetchDevTo vw dnet [''artificial-intelligence''];
                st4 = st3\<lparr>requests := requests st3 @ freqs\<rparr>
            in case fres of
                 Inl e \<Rightarrow> load_failed_v4 t1 ''funding'' st4
               | Inr fallback \<Rightarrow>
                   if fallback \<noteq> []
                   then showError LimitedResults (finish False (st4\<lparr>allArticles := fallback\<rparr>))
                   else st4\<lparr>allArticles := fallback,
                            grid := [EmptyState CouldNotLoad],
                            articleCount := NArticles 0\<rparr>))"
    by (simp add: load_v4_miss[where dres = "Inr devto"] Let_def)
  {
    assume k: "filter is_funding (merge devto hn) \<noteq> []"
    show "allArticles (load_v4 vw dnet hnet t0 t1 ''funding'' force sa)
           = filter is_funding (merge devto hn)"
      by (simp add: m k Let_def state_fields)
    show "errorBanner (load_v4 vw dnet hnet t0 t1 ''funding'' force sa) = None"
      by (simp add: m k Let_def state_fields)
    show "requests (load_v4 vw dnet hnet t0 t1 ''funding'' force sa) = requests sa @ dreqs @ hreqs"
      by (simp add: m k Let_def state_fields)
  }
  {
    assume k: "filter is_funding (merge devto hn) = []"
    obtain freqs fres where f: "fetchDevTo vw dnet [''artificial-intelligence''] = (freqs, fres)"
      by (cases "fetchDevTo vw dnet [''artificial-intelligence'']")
    from fetchDevTo_requests[of vw dnet "[''artificial-intelligence'']"] f
    have fr: "freqs = [DevToTag ''artificial-intelligence'']" by simp
    show "requests (load_v4 vw dnet hnet t0 t1 ''funding'' force sa)
           = requests sa @ dreqs @ hreqs @ [DevToTag ''artificial-intelligence'']"
      by (simp add: m k f fr Let_def state_fields load_failed_v4_fields split: sum.splits)
    show "case snd (fetchDevTo vw dnet [''artificial-intelligence'']) of
            Inr fb \<Rightarrow>
              allArticles (load_v4 vw dnet hnet t0 t1 ''funding'' force sa) = fb \<and>
              (if fb \<noteq> []
               then errorBanner (load_v4 vw dnet hnet t0 t1 ''funding'' force sa) = Some LimitedResults
               else grid (load_v4 vw dnet hnet t0 t1 ''funding'' force sa) = [EmptyState CouldNotLoad] \<and>
                    articleCount (load_v4 vw dnet hnet t0 t1 ''funding'' force sa) = NArticles 0)
          | Inl e \<Rightarrow>
              (case usable (loadCache (storage sa) t1 ''funding'') of
                 Some c \<Rightarrow>
                   allArticles (load_v4 vw dnet hnet t0 t1 ''funding'' force sa) = c \<and>
                   errorBanner (load_v4 vw dnet hnet t0 t1 ''funding'' force sa) = Some ShowingCached
               | None \<Rightarrow>
                   grid (load_v4 vw dnet hnet t0 t1 ''funding'' force sa) = [EmptyState FetchFailed] \<and>
                   articleCount (load_v4 vw dnet hnet t0 t1 ''funding'' force sa) = NArticles 0)"
      by (simp add: m k f Let_def state_fields load_failed_v4_def split: sum.splits option.splits)
  }
next
  assume e: "allArticles (load_v4 vw dnet hnet t0 t1 flt force sa) = []"
  then show "\<exists>m. grid (load_v4 vw dnet hnet t0 t1 flt force sa) = [EmptyState m]"
    by (simp add: load_v4_empty_state)
  from e show "articleCount (load_v4 vw dnet hnet t0 t1 flt force sa) = NArticles 0"
    by (simp add: load_v4_empty_state)
qed

text \<open>
  The theorem of C5 on three runs: a funding headline that is kept, two titles
  without a funding keyword that trigger the broader query, and a dead network that
  ends in the explicit empty state.
\<close>

theorem funding_filter_falls_back_witness:
  "snd (fetchDevTo plain_view (answering [rag_item]) (cfg_devto (cfg_of ''funding'')))
     = Inr [rag_devto] \<and>
   filter is_funding (merge [rag_devto] [raises_hn])
     = [raises_hn] \<and>
   allArticles (load_v4 plain_view (answering [rag_item]) (answering [raises_hit]) 0 1 ''funding'' True
                  (boot NoItem)) = [raises_hn] \<and>
   filter is_funding (merge [rag_devto] [gpt_hn]) = [] \<and>
   requests (load_v4 plain_view (answering [rag_item]) (answering [gpt_hit]) 0 1 ''funding'' True
               (boot NoItem))
     = [DevToTag ''startup'', DevToTag ''artificial-intelligence'', DevToTag ''machinelearning'',
        HNPlain ''AI startup funding raises million'', DevToTag ''artificial-intelligence''] \<and>
   allArticles (load_v4 plain_view (answering [rag_item]) (answering [gpt_hit]) 0 1 ''funding'' True
                  (boot NoItem)) = [rag_devto] \<and>
   errorBanner (load_v4 plain_view (answering [rag_item]) (answering [gpt_hit]) 0 1 ''funding'' True
                  (boot NoItem)) = Some LimitedResults \<and>
   allArticles (load_v4 plain_view offline offline 0 1 ''funding'' True (boot NoItem)) = [] \<and>
   grid (load_v4 plain_view offline offline 0 1 ''funding'' True (boot NoItem))
     = [EmptyState CouldNotLoad]"
proof -
  let ?dv = "rag_devto"
  let ?tags = "[DevToTag ''startup'', DevToTag ''artificial-intelligence'', DevToTag ''machinelearning'']"
  let ?hq = "[HNPlain ''AI startup funding raises million'']"
  have d: "fetchDevTo plain_view (answering [rag_item]) (cfg_devto (cfg_of ''funding'')) = (?tags, Inr [?dv])"
    by (simp add: run_defs)
  have f: "snd (fetchDevTo plain_view (answering [rag_item]) [''artificial-intelligence'']) = Inr [?dv]"
    by (simp add: run_defs)
  have h1: "fetchHN_v4 plain_view (answering [raises_hit]) (cfg_hn (cfg_of ''funding''))
              = (?hq, [raises_hn])"
    by (simp add: run_defs)
  have h2: "fetchHN_v4 plain_view (answering [gpt_hit]) (cfg_hn (cfg_of ''funding''))
              = (?hq, [gpt_hn])"
    by (simp add: run_defs)
  have k1: "filter is_funding (merge [?dv] [raises_hn]) = [raises_hn]"
    by (simp add: run_defs)
  have k2: "filter is_funding (merge [?dv] [gpt_hn]) = []"
    by (simp add: run_defs)
  have r: "requests (boot NoItem :: article app) = []" by (simp add: boot_def)
  have e: "allArticles (load_v4 plain_view offline offline 0 1 ''funding'' True (boot NoItem)) = []"
    by (simp add: run_defs)
  note inst1 = funding_filter_falls_back
    [where force = True and vw = plain_view and dnet = "answering [rag_item]"
       and hnet = "answering [raises_hit]" and dreqs = ?tags and hreqs = ?hq and devto = "[?dv]"
       and hn = "[raises_hn]" and sa = "boot NoItem" and ?t0.0 = 0 and ?t1.0 = 1,
     THEN conjunct2, THEN conjunct1]
  note inst2 = funding_filter_falls_back
    [where force = True and vw = plain_view and dnet = "answering [rag_item]"
       and hnet = "answering [gpt_hit]" and dreqs = ?tags and hreqs = ?hq and devto = "[?dv]"
       and hn = "[gpt_hn]" and sa = "boot NoItem" and ?t0.0 = 0 and ?t1.0 = 1,
     THEN conjunct2, THEN conjunct1]
  note inst3 = funding_filter_falls_back
    [where force = True and vw = plain_view and dnet = offline and hnet = offline
       and flt = "''funding''" and sa = "boot NoItem" and ?t0.0 = 0 and ?t1.0 = 1,
     THEN conjunct2, THEN conjunct2]
  from inst1 d h1 k1 have
    "allArticles (load_v4 plain_view (answering [rag_item]) (answering [raises_hit]) 0 1 ''funding'' True
                  (boot NoItem)) = [raises_hn]"
    by simp
  moreover from inst2 d h2 k2 f r have
    "requests (load_v4 plain_view (answering [rag_item]) (answering [gpt_hit]) 0 1 ''funding'' True
               (boot NoItem))
       = [DevToTag ''startup'', DevToTag ''artificial-intelligence'', DevToTag ''machinelearning'',
          HNPlain ''AI startup funding raises million'', DevToTag ''artificial-intelligence''] \<and>
     allArticles (load_v4 plain_view (answering [rag_item]) (answering [gpt_hit]) 0 1 ''funding'' True
                  (boot NoItem)) = [?dv] \<and>
     errorBanner (load_v4 plain_view (answering [rag_item]) (answering [gpt_hit]) 0 1 ''funding'' True
                  (boot NoItem)) = Some LimitedResults"
    by simp
  moreover from inst3 e have
    "\<exists>m. grid (load_v4 plain_view offline offline 0 1 ''funding'' True (boot NoItem)) = [EmptyState m]"
    by simp
  moreover have
    "grid (load_v4 plain_view offline offline 0 1 ''funding'' True (boot NoItem)) = [EmptyState CouldNotLoad]"
    by (simp add: run_defs)
  ultimately show ?thesis using d k1 k2 e by simp
qed

text \<open>
  Claim C6. In \<open>fetchArticles\<close>, when the one-day response has fewer than 5 hits, the
  three-day query is issued once and its hits replace the first ones; with 5 or more
  hits no second request is made. In \<open>fetchAll\<close>, when the one-day round (none of whose
  batches throws) yields fewer than 6 distinct titled hits, every query is issued
  once more with the three-day window and the new hits are appended after the first
  results, before sorting; with 6 or more the one-day requests are the only ones.
\<close>

theorem sparse_day_widens_once:
  "(\<forall>hits. net (HNQuery (query_of flt) 1) = Ok (Array hits) \<longrightarrow>
      (length hits < 5 \<longrightarrow>
         fst (fetchArticles net flt) = [HNQuery (query_of flt) 1, HNQuery (query_of flt) 3] \<and>
         (\<forall>hits3. net (HNQuery (query_of flt) 3) = Ok (Array hits3) \<longrightarrow>
            snd (fetchArticles net flt) = Inr (rank_v2 hits3))) \<and>
      (5 \<le> length hits \<longrightarrow>
         fst (fetchArticles net flt) = [HNQuery (query_of flt) 1] \<and>
         snd (fetchArticles net flt) = Inr (rank_v2 hits))) \<and>
   ((\<forall>q \<in> set (queries_of flt). net (HNQuery q 1) \<noteq> Ok NotArray) \<longrightarrow>
      (length (dedupe objectID {} (round_v3 net flt 1)) < 6 \<longrightarrow>
         fst (fetchAll net flt) =
           map (\<lambda>q. HNQuery q 1) (queries_of flt) @ map (\<lambda>q. HNQuery q 3) (queries_of flt) \<and>
         (\<forall>out. snd (fetchAll net flt) = Inr out \<longrightarrow>
            out = take 80 (sort_desc score
                    (dedupe objectID {} (round_v3 net flt 1) @
                     dedupe objectID (objectID ` set (round_v3 net flt 1)) (round_v3 net flt 3))))) \<and>
      (6 \<le> length (dedupe objectID {} (round_v3 net flt 1)) \<longrightarrow>
         fst (fetchAll net flt) = map (\<lambda>q. HNQuery q 1) (queries_of flt) \<and>
         snd (fetchAll net flt) =
           Inr (take 80 (sort_desc score (dedupe objectID {} (round_v3 net flt 1))))))"
proof (intro conjI allI impI)
  fix hits assume n: "net (HNQuery (query_of flt) 1) = Ok (Array hits)" and l: "length hits < 5"
  show "fst (fetchArticles net flt) = [HNQuery (query_of flt) 1, HNQuery (query_of flt) 3]"
    using n l by (simp add: fetchArticles_def fetchHN_v2_def Let_def split: response.splits payload.splits)
  fix hits3 assume "net (HNQuery (query_of flt) 3) = Ok (Array hits3)"
  with n l show "snd (fetchArticles net flt) = Inr (rank_v2 hits3)"
    by (simp add: fetchArticles_def fetchHN_v2_def Let_def)
next
  fix hits assume n: "net (HNQuery (query_of flt) 1) = Ok (Array hits)" and l: "5 \<le> length hits"
  then show "fst (fetchArticles net flt) = [HNQuery (query_of flt) 1]"
    by (simp add: fetchArticles_def fetchHN_v2_def Let_def)
  from n l show "snd (fetchArticles net flt) = Inr (rank_v2 hits)"
    by (simp add: fetchArticles_def fetchHN_v2_def Let_def)
next
  let ?b1 = "map (\<lambda>q. fetchOne net q 1) (queries_of flt)"
  assume ok: "\<forall>q \<in> set (queries_of flt). net (HNQuery q 1) \<noteq> Ok NotArray"
  then have "Inr NotArray \<notin> set ?b1" by (auto simp: fetchOne_NotArray)
  then obtain acc where "ingest_batches ({}, []) ?b1 = Inr acc"
    using ingest_batches_ok by blast
  then obtain seen results where r1: "ingest_batches ({}, []) ?b1 = Inr (seen, results)"
    by (cases acc) simp
  from ingest_batches_eq[OF r1]
  have res: "results = dedupe objectID {} (round_v3 net flt 1)"
    by (simp add: round_v3_def)
  {
    assume l: "length (dedupe objectID {} (round_v3 net flt 1)) < 6"
    show "fst (fetchAll net flt) =
           map (\<lambda>q. HNQuery q 1) (queries_of flt) @ map (\<lambda>q. HNQuery q 3) (queries_of flt)"
      using r1 res l by (simp add: fetchAll_def Let_def split: sum.splits)
    fix out assume o: "snd (fetchAll net flt) = Inr out"
    from l have i: "inputs_v3 net flt = round_v3 net flt 1 @ round_v3 net flt 3"
      by (simp add: inputs_v3_def)
    show "out = take 80 (sort_desc score
                    (dedupe objectID {} (round_v3 net flt 1) @
                     dedupe objectID (objectID ` set (round_v3 net flt 1)) (round_v3 net flt 3)))"
      using fetchAll_output[OF o] by (simp add: i dedupe_append)
  }
  {
    assume l: "6 \<le> length (dedupe objectID {} (round_v3 net flt 1))"
    show "fst (fetchAll net flt) = map (\<lambda>q. HNQuery q 1) (queries_of flt)"
      using r1 res l by (simp add: fetchAll_def Let_def)
    show "snd (fetchAll net flt) =
           Inr (take 80 (sort_desc score (dedupe objectID {} (round_v3 net flt 1))))"
      using r1 res l by (simp add: fetchAll_def Let_def)
  }
qed

text \<open>
  The theorem of C6 on responses of three hits (sparse) and of five and six hits.
\<close>

theorem sparse_day_widens_once_witness:
  "fetchArticles (answering [gpt_hit, llm_hit, gpt_hit_again]) ''llm'' =
     ([HNQuery (query_of ''llm'') 1, HNQuery (query_of ''llm'') 3], Inr [llm_hit, gpt_hit]) \<and>
   fetchArticles (answering [gpt_hit, llm_hit, gpt_hit_again, gpt_hit, llm_hit]) ''llm'' =
     ([HNQuery (query_of ''llm'') 1], Inr [llm_hit, gpt_hit]) \<and>
   fst (fetchAll (answering [gpt_hit, llm_hit, gpt_hit_again]) ''robotics'') =
     [HNQuery ''AI robotics'' 1, HNQuery ''robot AI'' 1, HNQuery ''autonomous robot'' 1,
      HNQuery ''AI robotics'' 3, HNQuery ''robot AI'' 3, HNQuery ''autonomous robot'' 3] \<and>
   fetchAll (answering [numbered 1, numbered 2, numbered 3, numbered 4, numbered 5, numbered 6])
       ''robotics'' =
     ([HNQuery ''AI robotics'' 1, HNQuery ''robot AI'' 1, HNQuery ''autonomous robot'' 1],
      Inr [numbered 6, numbered 5, numbered 4, numbered 3, numbered 2, numbered 1])"
proof -
  let ?few = "answering [gpt_hit, llm_hit, gpt_hit_again]"
  let ?five = "answering [gpt_hit, llm_hit, gpt_hit_again, gpt_hit, llm_hit]"
  let ?six = "answering [numbered 1, numbered 2, numbered 3, numbered 4, numbered 5, numbered 6]"
  have n1: "?few (HNQuery (query_of ''llm'') 1) = Ok (Array [gpt_hit, llm_hit, gpt_hit_again])"
    and n3: "?few (HNQuery (query_of ''llm'') 3) = Ok (Array [gpt_hit, llm_hit, gpt_hit_again])"
    and n5: "?five (HNQuery (query_of ''llm'') 1) = Ok (Array [gpt_hit, llm_hit, gpt_hit_again, gpt_hit, llm_hit])"
    by (simp_all add: answering_def)
  have r3: "rank_v2 [gpt_hit, llm_hit, gpt_hit_again] = [llm_hit, gpt_hit]"
    and r5: "rank_v2 [gpt_hit, llm_hit, gpt_hit_again, gpt_hit, llm_hit] = [llm_hit, gpt_hit]"
    by (simp_all add: run_defs)
  have okf: "\<forall>q \<in> set (queries_of ''robotics''). ?few (HNQuery q 1) \<noteq> Ok NotArray"
    and oks: "\<forall>q \<in> set (queries_of ''robotics''). ?six (HNQuery q 1) \<noteq> Ok NotArray"
    by (simp_all add: answering_def)
  have q: "queries_of ''robotics'' = [''AI robotics'', ''robot AI'', ''autonomous robot'']"
    by (simp add: run_defs)
  have d1: "dedupe objectID {} (round_v3 ?few ''robotics'' 1) = [gpt_hit, llm_hit]"
    by (simp add: run_defs)
  have d6: "dedupe objectID {} (round_v3 ?six ''robotics'' 1) =
              [numbered 1, numbered 2, numbered 3, numbered 4, numbered 5, numbered 6]"
    by (simp add: run_defs eval_nat_numeral)
  have s6: "take 80 (sort_desc score [numbered 1, numbered 2, numbered 3, numbered 4, numbered 5, numbered 6])
              = [numbered 6, numbered 5, numbered 4, numbered 3, numbered 2, numbered 1]"
    by (simp add: run_defs eval_nat_numeral)
  note i2 = sparse_day_widens_once[where net = ?few and flt = "''llm''", THEN conjunct1, THEN spec, THEN mp, OF n1]
  note i5 = sparse_day_widens_once[where net = ?five and flt = "''llm''", THEN conjunct1, THEN spec, THEN mp, OF n5]
  note i3 = sparse_day_widens_once[where net = ?few and flt = "''robotics''", THEN conjunct2, THEN mp, OF okf]
  note i6 = sparse_day_widens_once[where net = ?six and flt = "''robotics''", THEN conjunct2, THEN mp, OF oks]
  from i2 n3 r3 have "fetchArticles ?few ''llm'' =
      ([HNQuery (query_of ''llm'') 1, HNQuery (query_of ''llm'') 3], Inr [llm_hit, gpt_hit])"
    by (simp add: prod_eq_iff)
  moreover from i5 r5 have "fetchArticles ?five ''llm'' = ([HNQuery (query_of ''llm'') 1], Inr [llm_hit, gpt_hit])"
    by (simp add: prod_eq_iff)
  moreover from i3 d1 q have "fst (fetchAll ?few ''robotics'') =
     [HNQuery ''AI robotics'' 1, HNQuery ''robot AI'' 1, HNQuery ''autonomous robot'' 1,
      HNQuery ''AI robotics'' 3, HNQuery ''robot AI'' 3, HNQuery ''autonomous robot'' 3]"
    by simp
  moreover from i6 d6 q s6 have "fetchAll ?six ''robotics'' =
     ([HNQuery ''AI robotics'' 1, HNQuery ''robot AI'' 1, HNQuery ''autonomous robot'' 1],
      Inr [numbered 6, numbered 5, numbered 4, numbered 3, numbered 2, numbered 1])"
    by (simp add: prod_eq_iff)
  ultimately show ?thesis by simp
qed

text \<open>
  Claim C7, as amended. In the list that \<open>merge\<close>, \<open>fetchAll\<close> or \<open>fetchArticles\<close> returns,
  every article has a score at least as high as every later article, adjacent ones
  in particular; and for each score, the output's articles of that score are, in the
  same order, an initial part of the deduplicated inputs' articles of that score, the
  deduplicated inputs being a subsequence of the fetch order. The funding post-filter
  keeps both properties. A run of \<open>loadArticles\<close> or of \<open>load\<close> that fetched holds that
  very list; in the two-source generation this is so when the list, after the
  post-filter, is not empty. When it is empty, the run holds the list of the broader
  fallback, which is not sorted: it is what dev.to returned for the tag
  \<^verbatim>\<open>artificial-intelligence\<close>, without the items that have no title or repeat an id, in
  the order of the response.
\<close>

theorem output_sorted_and_stable:
  "(sorted_wrt (\<lambda>a b. art_points a \<ge> art_points b) (merge devto hn) \<and>
    prefix (filter (\<lambda>a. art_points a = s) (merge devto hn))
           (filter (\<lambda>a. art_points a = s) (dedupe title_key {} (devto @ hn))) \<and>
    subseq (dedupe title_key {} (devto @ hn)) (devto @ hn) \<and>
    sorted_wrt (\<lambda>a b. art_points a \<ge> art_points b) (filter is_funding (merge devto hn)) \<and>
    prefix (filter (\<lambda>a. art_points a = s) (filter is_funding (merge devto hn)))
           (filter (\<lambda>a. art_points a = s) (filter is_funding (dedupe title_key {} (devto @ hn))))) \<and>
   (\<forall>out. snd (fetchAll net flt) = Inr out \<longrightarrow>
      sorted_wrt (\<lambda>a b. score a \<ge> score b) out \<and>
      prefix (filter (\<lambda>h. score h = s) out)
             (filter (\<lambda>h. score h = s) (dedupe objectID {} (inputs_v3 net flt))) \<and>
      subseq (dedupe objectID {} (inputs_v3 net flt)) (inputs_v3 net flt) \<and>
      (\<not> isLoading sh \<and> (force \<or> usable (loadCache (storage sh) t0 flt) = None) \<longrightarrow>
         allArticles (load_v3 net t0 t1 flt force sh) = out)) \<and>
   (\<forall>out. snd (fetchArticles net flt) = Inr out \<longrightarrow>
      sorted_wrt (\<lambda>a b. score a \<ge> score b) out \<and>
      prefix (filter (\<lambda>h. score h = s) out)
             (filter (\<lambda>h. score h = s) (dedupe objectID {} (inputs_v2 net flt))) \<and>
      subseq (dedupe objectID {} (inputs_v2 net flt)) (inputs_v2 net flt) \<and>
      (force \<or> loadCache (storage sh) t0 flt = None \<longrightarrow>
         allArticles (loadArticles net t0 t1 flt force sh) = out)) \<and>
   ((force \<or> usable (loadCache (storage sa) t0 flt) = None) \<and>
    snd (fetchDevTo vw dnet (cfg_devto (cfg_of flt))) = Inr devto \<and>
    snd (fetchHN_v4 vw hnet (cfg_hn (cfg_of flt))) = hn \<longrightarrow>
      ((if flt = ''funding'' then filter is_funding (merge devto hn) else merge devto hn) \<noteq> [] \<longrightarrow>
         allArticles (load_v4 vw dnet hnet t0 t1 flt force sa) =
           (if flt = ''funding'' then filter is_funding (merge devto hn) else merge devto hn)) \<and>
      ((if flt = ''funding'' then filter is_funding (merge devto hn) else merge devto hn) = [] \<longrightarrow>
         (\<forall>items. dnet (DevToTag ''artificial-intelligence'') = Ok (Array items) \<longrightarrow>
            allArticles (load_v4 vw dnet hnet t0 t1 flt force sa) =
              map (devto_article vw)
                (dedupe dv_id {} (filter (\<lambda>a. truthy (dv_title a)) items)))))"
proof (intro conjI allI impI)
  show "sorted_wrt (\<lambda>a b. art_points a \<ge> art_points b) (merge devto hn)"
    unfolding merge_def by (rule ranked_sorted)
  show "prefix (filter (\<lambda>a. art_points a = s) (merge devto hn))
           (filter (\<lambda>a. art_points a = s) (dedupe title_key {} (devto @ hn)))"
    unfolding merge_def by (rule ranked_stable)
  show "subseq (dedupe title_key {} (devto @ hn)) (devto @ hn)" by (rule dedupe_subseq)
  show "sorted_wrt (\<lambda>a b. art_points a \<ge> art_points b) (filter is_funding (merge devto hn))"
    unfolding merge_def by (rule sorted_wrt_filter) (rule ranked_sorted)
  show "prefix (filter (\<lambda>a. art_points a = s) (filter is_funding (merge devto hn)))
           (filter (\<lambda>a. art_points a = s) (filter is_funding (dedupe title_key {} (devto @ hn))))"
    unfolding merge_def by (rule ranked_stable_filtered)
next
  fix out assume "snd (fetchAll net flt) = Inr out"
  then have o: "out = take 80 (sort_desc score (dedupe objectID {} (inputs_v3 net flt)))"
    by (rule fetchAll_output)
  show "sorted_wrt (\<lambda>a b. score a \<ge> score b) out" unfolding o by (rule ranked_sorted)
  show "prefix (filter (\<lambda>h. score h = s) out)
             (filter (\<lambda>h. score h = s) (dedupe objectID {} (inputs_v3 net flt)))"
    unfolding o by (rule ranked_stable)
  show "subseq (dedupe objectID {} (inputs_v3 net flt)) (inputs_v3 net flt)" by (rule dedupe_subseq)
next
  fix out
  assume "snd (fetchAll net flt) = Inr out"
    and "\<not> isLoading sh \<and> (force \<or> usable (loadCache (storage sh) t0 flt) = None)"
  then show "allArticles (load_v3 net t0 t1 flt force sh) = out"
    by (simp add: load_v3_fetched)
next
  fix out assume "snd (fetchArticles net flt) = Inr out"
  then have "out = rank_v2 (inputs_v2 net flt)" by (rule fetchArticles_output)
  then have o: "out = take 60 (sort_desc score (dedupe objectID {} (inputs_v2 net flt)))"
    by (simp add: rank_v2_def MAX_RESULTS_def)
  show "sorted_wrt (\<lambda>a b. score a \<ge> score b) out" unfolding o by (rule ranked_sorted)
  show "prefix (filter (\<lambda>h. score h = s) out)
             (filter (\<lambda>h. score h = s) (dedupe objectID {} (inputs_v2 net flt)))"
    unfolding o by (rule ranked_stable)
  show "subseq (dedupe objectID {} (inputs_v2 net flt)) (inputs_v2 net flt)" by (rule dedupe_subseq)
next
  fix out
  assume "snd (fetchArticles net flt) = Inr out"
    and "force \<or> loadCache (storage sh) t0 flt = None"
  then show "allArticles (loadArticles net t0 t1 flt force sh) = out"
    by (simp add: loadArticles_fetched)
next
  assume a: "(force \<or> usable (loadCache (storage sa) t0 flt) = None) \<and>
    snd (fetchDevTo vw dnet (cfg_devto (cfg_of flt))) = Inr devto \<and>
    snd (fetchHN_v4 vw hnet (cfg_hn (cfg_of flt))) = hn"
    and k: "(if flt = ''funding'' then filter is_funding (merge devto hn) else merge devto hn) \<noteq> []"
  from a have m: "force \<or> usable (loadCache (storage sa) t0 flt) = None"
    and d: "snd (fetchDevTo vw dnet (cfg_devto (cfg_of flt))) = Inr devto"
    and h: "snd (fetchHN_v4 vw hnet (cfg_hn (cfg_of flt))) = hn"
    by simp_all
  show "allArticles (load_v4 vw dnet hnet t0 t1 flt force sa) =
           (if flt = ''funding'' then filter is_funding (merge devto hn) else merge devto hn)"
    by (rule load_v4_ranked[OF m d h k])
next
  fix items
  assume a: "(force \<or> usable (loadCache (storage sa) t0 flt) = None) \<and>
    snd (fetchDevTo vw dnet (cfg_devto (cfg_of flt))) = Inr devto \<and>
    snd (fetchHN_v4 vw hnet (cfg_hn (cfg_of flt))) = hn"
    and k: "(if flt = ''funding'' then filter is_funding (merge devto hn) else merge devto hn) = []"
    and i: "dnet (DevToTag ''artificial-intelligence'') = Ok (Array items)"
  from a have m: "force \<or> usable (loadCache (storage sa) t0 flt) = None"
    and d: "snd (fetchDevTo vw dnet (cfg_devto (cfg_of flt))) = Inr devto"
    and h: "snd (fetchHN_v4 vw hnet (cfg_hn (cfg_of flt))) = hn"
    by simp_all
  show "allArticles (load_v4 vw dnet hnet t0 t1 flt force sa) =
          map (devto_article vw) (dedupe dv_id {} (filter (\<lambda>a. truthy (dv_title a)) items))"
    by (rule load_v4_broad[OF m d h k i])
qed

text \<open>
  Claim C7 as stated fails. With nothing under the tags of \<^verbatim>\<open>llm\<close> and Hacker News
  unreachable, the two-source \<open>load\<close> takes the broader fallback. dev.to answers it with
  an article of 5 reactions followed by one of 9, and that is the list shown, under
  the "limited results" notice: the earlier article has the lower score.
\<close>

theorem fallback_list_unsorted_counterexample:
  "allArticles (load_v4 plain_view (broad_only [rag_item, agents_item]) offline 0 1 ''llm'' True
                  (boot NoItem)) = [rag_devto, agents_devto] \<and>
   map art_points
     (allArticles (load_v4 plain_view (broad_only [rag_item, agents_item]) offline 0 1 ''llm'' True
                     (boot NoItem))) = [5, 9] \<and>
   errorBanner (load_v4 plain_view (broad_only [rag_item, agents_item]) offline 0 1 ''llm'' True
                  (boot NoItem)) = Some LimitedResults \<and>
   \<not> sorted_wrt (\<lambda>a b. art_points a \<ge> art_points b)
       (allArticles (load_v4 plain_view (broad_only [rag_item, agents_item]) offline 0 1 ''llm'' True
                       (boot NoItem)))"
  by (simp add: run_defs)

text \<open>
  The theorem of C7 on inputs with a tie at score 120, which keeps the fetch order,
  on forced runs of the three generations, and on a run that takes the broader
  fallback.
\<close>

theorem output_sorted_and_stable_witness:
  "merge [raises_devto, chatbot_devto] [raises_hn, agents_hn] = [chatbot_devto, agents_hn, raises_devto] \<and>
   sorted_wrt (\<lambda>a b. art_points a \<ge> art_points b) [chatbot_devto, agents_hn, raises_devto] \<and>
   prefix (filter (\<lambda>a. art_points a = 120) [chatbot_devto, agents_hn, raises_devto])
          (filter (\<lambda>a. art_points a = 120)
             (dedupe title_key {} ([raises_devto, chatbot_devto] @ [raises_hn, agents_hn]))) \<and>
   snd (fetchAll (answering [gpt_hit, llm_hit, gpt_hit_again]) ''robotics'') = Inr [llm_hit, gpt_hit] \<and>
   sorted_wrt (\<lambda>a b. score a \<ge> score b) [llm_hit, gpt_hit] \<and>
   allArticles (load_v3 (answering [gpt_hit, llm_hit, gpt_hit_again]) 0 1 ''robotics'' True (boot NoItem))
     = [llm_hit, gpt_hit] \<and>
   snd (fetchArticles (answering [gpt_hit, llm_hit, gpt_hit_again]) ''robotics'') = Inr [llm_hit, gpt_hit] \<and>
   allArticles (loadArticles (answering [gpt_hit, llm_hit, gpt_hit_again]) 0 1 ''robotics'' True
                  (boot NoItem)) = [llm_hit, gpt_hit] \<and>
   allArticles (load_v4 plain_view (answering [rag_item]) (answering [gpt_hit]) 0 1 ''llm'' True
                  (boot NoItem)) = [gpt_hn, rag_devto] \<and>
   allArticles (load_v4 plain_view (broad_only [agents_item, rag_item]) offline 0 1 ''llm'' True
                  (boot NoItem)) = [agents_devto, rag_devto]"
proof -
  let ?net = "answering [gpt_hit, llm_hit, gpt_hit_again]"
  have m: "merge [raises_devto, chatbot_devto] [raises_hn, agents_hn] = [chatbot_devto, agents_hn, raises_devto]"
    by (simp add: run_defs)
  have o3: "snd (fetchAll ?net ''robotics'') = Inr [llm_hit, gpt_hit]" by (simp add: run_defs)
  have o2: "snd (fetchArticles ?net ''robotics'') = Inr [llm_hit, gpt_hit]" by (simp add: run_defs)
  have b: "\<not> isLoading (boot NoItem :: hit app)" by (simp add: boot_def)
  have d4: "snd (fetchDevTo plain_view (answering [rag_item]) (cfg_devto (cfg_of ''llm'')))
              = Inr [rag_devto]"
    by (simp add: run_defs)
  have h4: "snd (fetchHN_v4 plain_view (answering [gpt_hit]) (cfg_hn (cfg_of ''llm''))) = [gpt_hn]"
    by (simp add: run_defs)
  have m4: "merge [rag_devto] [gpt_hn] = [gpt_hn, rag_devto]" by (simp add: run_defs)
  have d5: "snd (fetchDevTo plain_view (broad_only [agents_item, rag_item]) (cfg_devto (cfg_of ''llm'')))
              = Inr []"
    by (simp add: run_defs broad_only_def)
  have h5: "snd (fetchHN_v4 plain_view offline (cfg_hn (cfg_of ''llm''))) = []"
    by (simp add: run_defs)
  have m5: "merge [] [] = []" by (simp add: run_defs)
  have i5: "broad_only [agents_item, rag_item] (DevToTag ''artificial-intelligence'')
              = Ok (Array [agents_item, rag_item])"
    by (simp add: broad_only_def)
  have e5: "map (devto_article plain_view)
              (dedupe dv_id {} (filter (\<lambda>a. truthy (dv_title a)) [agents_item, rag_item]))
              = [agents_devto, rag_devto]"
    by (simp add: run_defs agents_item_def agents_devto_def)
  note inst = output_sorted_and_stable
    [where devto = "[raises_devto, chatbot_devto]" and hn = "[raises_hn, agents_hn]"
       and net = ?net and flt = "''robotics''" and s = 120 and force = True
       and sh = "boot NoItem" and ?t0.0 = 0 and ?t1.0 = 1]
  note inst4 = output_sorted_and_stable
    [where force = True and flt = "''llm''" and vw = plain_view and dnet = "answering [rag_item]"
       and hnet = "answering [gpt_hit]" and devto = "[rag_devto]" and hn = "[gpt_hn]"
       and sa = "boot NoItem" and ?t0.0 = 0 and ?t1.0 = 1,
     THEN conjunct2, THEN conjunct2, THEN conjunct2]
  note inst5 = output_sorted_and_stable
    [where force = True and flt = "''llm''" and vw = plain_view
       and dnet = "broad_only [agents_item, rag_item]"
       and hnet = offline and devto = "[]" and hn = "[]"
       and sa = "boot NoItem" and ?t0.0 = 0 and ?t1.0 = 1,
     THEN conjunct2, THEN conjunct2, THEN conjunct2]
  from inst m have
    "sorted_wrt (\<lambda>a b. art_points a \<ge> art_points b) [chatbot_devto, agents_hn, raises_devto] \<and>
     prefix (filter (\<lambda>a. art_points a = 120) [chatbot_devto, agents_hn, raises_devto])
          (filter (\<lambda>a. art_points a = 120)
             (dedupe title_key {} ([raises_devto, chatbot_devto] @ [raises_hn, agents_hn])))"
    by simp
  moreover from inst o3 have "sorted_wrt (\<lambda>a b. score a \<ge> score b) [llm_hit, gpt_hit]"
    by blast
  moreover from inst o3 b have
    "allArticles (load_v3 ?net 0 1 ''robotics'' True (boot NoItem)) = [llm_hit, gpt_hit]"
    by blast
  moreover from inst o2 have
    "allArticles (loadArticles ?net 0 1 ''robotics'' True (boot NoItem)) = [llm_hit, gpt_hit]"
    by blast
  moreover from inst4 d4 h4 m4 have
    "allArticles (load_v4 plain_view (answering [rag_item]) (answering [gpt_hit]) 0 1 ''llm'' True
                    (boot NoItem)) = [gpt_hn, rag_devto]"
    by simp
  moreover from inst5 d5 h5 m5 i5 e5 have
    "allArticles (load_v4 plain_view (broad_only [agents_item, rag_item]) offline 0 1 ''llm'' True
                    (boot NoItem)) = [agents_devto, rag_devto]"
    by simp
  ultimately show ?thesis using m o3 o2 by simp
qed

text \<open>
  Claim C8, as amended. The list that \<open>merge\<close> returns, also after the funding
  post-filter, and the list that \<open>fetchAll\<close> returns have at most 80 elements, the list
  that \<open>fetchArticles\<close> returns at most 60 (\<open>MAX_RESULTS\<close>), whatever the number of
  articles fetched; and so has the list that a run of \<open>loadArticles\<close> or of \<open>load\<close> holds
  after it fetched, in the two-source generation when that list, after the
  post-filter, is not empty. When it is empty, the run holds the list of the broader
  fallback, which is not cut: it is empty when the request fails, and otherwise as
  long as the response for the tag \<^verbatim>\<open>artificial-intelligence\<close> at most, so within the
  cap as far as dev.to returns no more than the 30 items asked for.
\<close>

theorem output_length_capped:
  "length (merge devto hn) \<le> 80 \<and>
   length (filter is_funding (merge devto hn)) \<le> 80 \<and>
   (\<forall>xs. snd (fetchAll net flt) = Inr xs \<longrightarrow>
      length xs \<le> 80 \<and>
      (\<not> isLoading sh \<and> (force \<or> usable (loadCache (storage sh) t0 flt) = None) \<longrightarrow>
         length (allArticles (load_v3 net t0 t1 flt force sh)) \<le> 80)) \<and>
   (\<forall>xs. snd (fetchArticles net flt) = Inr xs \<longrightarrow>
      length xs \<le> 60 \<and>
      (force \<or> loadCache (storage sh) t0 flt = None \<longrightarrow>
         length (allArticles (loadArticles net t0 t1 flt force sh)) \<le> 60)) \<and>
   ((force \<or> usable (loadCache (storage sa) t0 flt) = None) \<and>
    snd (fetchDevTo vw dnet (cfg_devto (cfg_of flt))) = Inr devto \<and>
    snd (fetchHN_v4 vw hnet (cfg_hn (cfg_of flt))) = hn \<longrightarrow>
      ((if flt = ''funding'' then filter is_funding (merge devto hn) else merge devto hn) \<noteq> [] \<longrightarrow>
         length (allArticles (load_v4 vw dnet hnet t0 t1 flt force sa)) \<le> 80) \<and>
      ((if flt = ''funding'' then filter is_funding (merge devto hn) else merge devto hn) = [] \<longrightarrow>
         (dnet (DevToTag ''artificial-intelligence'') = Failed \<longrightarrow>
            allArticles (load_v4 vw dnet hnet t0 t1 flt force sa) = []) \<and>
         (\<forall>items. dnet (DevToTag ''artificial-intelligence'') = Ok (Array items) \<longrightarrow>
            length (allArticles (load_v4 vw dnet hnet t0 t1 flt force sa)) \<le> length items)))"
proof (intro conjI allI impI)
  show m: "length (merge devto hn) \<le> 80" by (simp add: merge_def)
  have "length (filter is_funding (merge devto hn)) \<le> length (merge devto hn)"
    by (rule length_filter_le)
  with m show "length (filter is_funding (merge devto hn)) \<le> 80" by linarith
next
  fix xs assume "snd (fetchAll net flt) = Inr xs"
  then have "xs = take 80 (sort_desc score (dedupe objectID {} (inputs_v3 net flt)))"
    by (rule fetchAll_output)
  then show "length xs \<le> 80" by simp
next
  fix xs
  assume f: "snd (fetchAll net flt) = Inr xs"
    and "\<not> isLoading sh \<and> (force \<or> usable (loadCache (storage sh) t0 flt) = None)"
  then have "allArticles (load_v3 net t0 t1 flt force sh) = xs"
    by (simp add: load_v3_fetched)
  moreover from f have "xs = take 80 (sort_desc score (dedupe objectID {} (inputs_v3 net flt)))"
    by (rule fetchAll_output)
  then have "length xs \<le> 80" by simp
  ultimately show "length (allArticles (load_v3 net t0 t1 flt force sh)) \<le> 80" by simp
next
  fix xs assume "snd (fetchArticles net flt) = Inr xs"
  then have "xs = rank_v2 (inputs_v2 net flt)" by (rule fetchArticles_output)
  then show "length xs \<le> 60" by (simp add: rank_v2_def MAX_RESULTS_def)
next
  fix xs
  assume f: "snd (fetchArticles net flt) = Inr xs"
    and "force \<or> loadCache (storage sh) t0 flt = None"
  then have "allArticles (loadArticles net t0 t1 flt force sh) = xs"
    by (simp add: loadArticles_fetched)
  moreover from f have "xs = rank_v2 (inputs_v2 net flt)" by (rule fetchArticles_output)
  then have "length xs \<le> 60" by (simp add: rank_v2_def MAX_RESULTS_def)
  ultimately show "length (allArticles (loadArticles net t0 t1 flt force sh)) \<le> 60" by simp
next
  assume a: "(force \<or> usable (loadCache (storage sa) t0 flt) = None) \<and>
    snd (fetchDevTo vw dnet (cfg_devto (cfg_of flt))) = Inr devto \<and>
    snd (fetchHN_v4 vw hnet (cfg_hn (cfg_of flt))) = hn"
    and k: "(if flt = ''funding'' then filter is_funding (merge devto hn) else merge devto hn) \<noteq> []"
  from a have m: "force \<or> usable (loadCache (storage sa) t0 flt) = None"
    and d: "snd (fetchDevTo vw dnet (cfg_devto (cfg_of flt))) = Inr devto"
    and h: "snd (fetchHN_v4 vw hnet (cfg_hn (cfg_of flt))) = hn"
    by simp_all
  have c: "length (merge devto hn) \<le> 80" by (simp add: merge_def)
  have "length (filter is_funding (merge devto hn)) \<le> length (merge devto hn)"
    by (rule length_filter_le)
  with c have "length (filter is_funding (merge devto hn)) \<le> 80" by linarith
  with c have "length (if flt = ''funding'' then filter is_funding (merge devto hn) else merge devto hn) \<le> 80"
    by simp
  then show "length (allArticles (load_v4 vw dnet hnet t0 t1 flt force sa)) \<le> 80"
    by (simp only: load_v4_ranked[OF m d h k])
next
  assume a: "(force \<or> usable (loadCache (storage sa) t0 flt) = None) \<and>
    snd (fetchDevTo vw dnet (cfg_devto (cfg_of flt))) = Inr devto \<and>
    snd (fetchHN_v4 vw hnet (cfg_hn (cfg_of flt))) = hn"
    and k: "(if flt = ''funding'' then filter is_funding (merge devto hn) else merge devto hn) = []"
    and i: "dnet (DevToTag ''artificial-intelligence'') = Failed"
  from a have m: "force \<or> usable (loadCache (storage sa) t0 flt) = None"
    and d: "snd (fetchDevTo vw dnet (cfg_devto (cfg_of flt))) = Inr devto"
    and h: "snd (fetchHN_v4 vw hnet (cfg_hn (cfg_of flt))) = hn"
    by simp_all
  show "allArticles (load_v4 vw dnet hnet t0 t1 flt force sa) = []"
    by (rule load_v4_broad_failed[OF m d h k i])
next
  fix items
  assume a: "(force \<or> usable (loadCache (storage sa) t0 flt) = None) \<and>
    snd (fetchDevTo vw dnet (cfg_devto (cfg_of flt))) = Inr devto \<and>
    snd (fetchHN_v4 vw hnet (cfg_hn (cfg_of flt))) = hn"
    and k: "(if flt = ''funding'' then filter is_funding (merge devto hn) else merge devto hn) = []"
    and i: "dnet (DevToTag ''artificial-intelligence'') = Ok (Array items)"
  from a have m: "force \<or> usable (loadCache (storage sa) t0 flt) = None"
    and d: "snd (fetchDevTo vw dnet (cfg_devto (cfg_of flt))) = Inr devto"
    and h: "snd (fetchHN_v4 vw hnet (cfg_hn (cfg_of flt))) = hn"
    by simp_all
  have "length (dedupe dv_id {} (filter (\<lambda>a. truthy (dv_title a)) items))
          \<le> length (filter (\<lambda>a. truthy (dv_title a)) items)"
    by (rule length_dedupe_le)
  also have "\<dots> \<le> length items" by (rule length_filter_le)
  finally show "length (allArticles (load_v4 vw dnet hnet t0 t1 flt force sa)) \<le> length items"
    by (simp add: load_v4_broad[OF m d h k i])
qed

text \<open>
  Claim C8 as stated fails. With nothing under the tags of \<^verbatim>\<open>llm\<close> and Hacker News
  unreachable, the two-source \<open>load\<close> takes the broader fallback. When dev.to answers
  it with 81 articles, all 81 are held: one more than the cap of 80.
\<close>

theorem fallback_list_uncapped_counterexample:
  "length flood = 81 \<and>
   broad_only flood (DevToTag ''artificial-intelligence'') = Ok (Array flood) \<and>
   length (allArticles (load_v4 plain_view (broad_only flood) offline 0 1 ''llm'' True (boot NoItem)))
     = 81 \<and>
   \<not> length (allArticles (load_v4 plain_view (broad_only flood) offline 0 1 ''llm'' True (boot NoItem)))
       \<le> 80"
proof -
  have d: "snd (fetchDevTo plain_view (broad_only flood) (cfg_devto (cfg_of ''llm''))) = Inr []"
    by (simp add: cfg_of_def FILTERS_def fetchDevTo_def broad_only_def Let_def)
  have h: "snd (fetchHN_v4 plain_view offline (cfg_hn (cfg_of ''llm''))) = []"
    by (simp add: cfg_of_def FILTERS_def fetchHN_v4_def offline_def)
  have i: "broad_only flood (DevToTag ''artificial-intelligence'') = Ok (Array flood)"
    by (simp add: broad_only_def)
  have "allArticles (load_v4 plain_view (broad_only flood) offline 0 1 ''llm'' True (boot NoItem)) =
          map (devto_article plain_view) (dedupe dv_id {} (filter (\<lambda>a. truthy (dv_title a)) flood))"
    by (rule load_v4_broad[OF _ d h _ i]) (simp_all add: merge_def sort_desc_def)
  then have "length (allArticles
      (load_v4 plain_view (broad_only flood) offline 0 1 ''llm'' True (boot NoItem))) = 81"
    by (simp add: flood_kept length_flood)
  with i show ?thesis by (simp add: length_flood)
qed

text \<open>
  The theorem of C8 on a network that answers every query with three hits, on the
  merge of 83 articles, on forced runs of the three generations, and on runs that
  take the broader fallback, answered with two articles or not at all.
\<close>

theorem output_length_capped_witness:
  "snd (fetchAll (answering [gpt_hit, llm_hit, gpt_hit_again]) ''robotics'') = Inr [llm_hit, gpt_hit] \<and>
   length [llm_hit, gpt_hit] \<le> 80 \<and>
   length (allArticles (load_v3 (answering [gpt_hit, llm_hit, gpt_hit_again]) 0 1 ''robotics'' True
                          (boot NoItem))) \<le> 80 \<and>
   snd (fetchArticles (answering [gpt_hit, llm_hit, gpt_hit_again]) ''robotics'') = Inr [llm_hit, gpt_hit] \<and>
   length [llm_hit, gpt_hit] \<le> 60 \<and>
   length (allArticles (loadArticles (answering [gpt_hit, llm_hit, gpt_hit_again]) 0 1 ''robotics'' True
                          (boot NoItem))) \<le> 60 \<and>
   length (merge (crowd @ [raises_devto]) [raises_hn]) \<le> 80 \<and>
   merge [rag_devto] [gpt_hn] = [gpt_hn, rag_devto] \<and>
   length (allArticles (load_v4 plain_view (answering [rag_item]) (answering [gpt_hit]) 0 1 ''llm'' True
                          (boot NoItem))) \<le> 80 \<and>
   length (allArticles (load_v4 plain_view (broad_only [agents_item, rag_item]) offline 0 1 ''llm'' True
                          (boot NoItem))) \<le> length [agents_item, rag_item] \<and>
   allArticles (load_v4 plain_view offline offline 0 1 ''llm'' True (boot NoItem)) = []"
proof -
  let ?net = "answering [gpt_hit, llm_hit, gpt_hit_again]"
  have a: "snd (fetchAll ?net ''robotics'') = Inr [llm_hit, gpt_hit]"
    by (simp add: run_defs)
  have b: "snd (fetchArticles ?net ''robotics'') = Inr [llm_hit, gpt_hit]"
    by (simp add: run_defs)
  have l: "\<not> isLoading (boot NoItem :: hit app)" by (simp add: boot_def)
  have d4: "snd (fetchDevTo plain_view (answering [rag_item]) (cfg_devto (cfg_of ''llm'')))
              = Inr [rag_devto]"
    by (simp add: run_defs)
  have h4: "snd (fetchHN_v4 plain_view (answering [gpt_hit]) (cfg_hn (cfg_of ''llm''))) = [gpt_hn]"
    by (simp add: run_defs)
  have m4: "merge [rag_devto] [gpt_hn] = [gpt_hn, rag_devto]" by (simp add: run_defs)
  have d5: "snd (fetchDevTo plain_view (broad_only [agents_item, rag_item]) (cfg_devto (cfg_of ''llm'')))
              = Inr []"
    by (simp add: run_defs broad_only_def)
  have h5: "snd (fetchHN_v4 plain_view offline (cfg_hn (cfg_of ''llm''))) = []"
    by (simp add: run_defs)
  have m5: "merge [] [] = []" by (simp add: run_defs)
  have i5: "broad_only [agents_item, rag_item] (DevToTag ''artificial-intelligence'')
              = Ok (Array [agents_item, rag_item])"
    by (simp add: broad_only_def)
  have d6: "snd (fetchDevTo plain_view offline (cfg_devto (cfg_of ''llm''))) = Inr []"
    by (simp add: run_defs)
  have i6: "(offline :: request \<Rightarrow> devto_item response) (DevToTag ''artificial-intelligence'') = Failed"
    by (simp add: offline_def)
  note inst = output_length_capped
    [where net = ?net and flt = "''robotics''"
       and devto = "crowd @ [raises_devto]" and hn = "[raises_hn]" and force = True
       and sh = "boot NoItem" and ?t0.0 = 0 and ?t1.0 = 1]
  note inst4 = output_length_capped
    [where force = True and flt = "''llm''" and vw = plain_view and dnet = "answering [rag_item]"
       and hnet = "answering [gpt_hit]" and devto = "[rag_devto]" and hn = "[gpt_hn]"
       and sa = "boot NoItem" and ?t0.0 = 0 and ?t1.0 = 1,
     THEN conjunct2, THEN conjunct2, THEN conjunct2, THEN conjunct2]
  note inst5 = output_length_capped
    [where force = True and flt = "''llm''" and vw = plain_view
       and dnet = "broad_only [agents_item, rag_item]"
       and hnet = offline and devto = "[]" and hn = "[]"
       and sa = "boot NoItem" and ?t0.0 = 0 and ?t1.0 = 1,
     THEN conjunct2, THEN conjunct2, THEN conjunct2, THEN conjunct2]
  note inst6 = output_length_capped
    [where force = True and flt = "''llm''" and vw = plain_view and dnet = offline
       and hnet = offline and devto = "[]" and hn = "[]"
       and sa = "boot NoItem" and ?t0.0 = 0 and ?t1.0 = 1,
     THEN conjunct2, THEN conjunct2, THEN conjunct2, THEN conjunct2]
  from inst a l have
    "length (allArticles (load_v3 ?net 0 1 ''robotics'' True (boot NoItem))) \<le> 80"
    by blast
  moreover from inst b have
    "length (allArticles (loadArticles ?net 0 1 ''robotics'' True (boot NoItem))) \<le> 60"
    by blast
  moreover from inst have "length (merge (crowd @ [raises_devto]) [raises_hn]) \<le> 80"
    by blast
  moreover from inst4 d4 h4 m4 have
    "length (allArticles (load_v4 plain_view (answering [rag_item]) (answering [gpt_hit]) 0 1 ''llm'' True
                            (boot NoItem))) \<le> 80"
    by simp
  moreover from inst5 d5 h5 m5 i5 have
    "length (allArticles (load_v4 plain_view (broad_only [agents_item, rag_item]) offline 0 1 ''llm'' True
                            (boot NoItem))) \<le> length [agents_item, rag_item]"
    by simp
  moreover from inst6 d6 h5 m5 i6 have
    "allArticles (load_v4 plain_view offline offline 0 1 ''llm'' True (boot NoItem)) = []"
    by simp
  ultimately show ?thesis using a b m4 by simp
qed

text \<open>
  Claim C9, as amended. Every article of the output is the first article of the
  inputs, in fetch order, that has its deduplication key: the very same record, no
  field changed and nothing taken from a later duplicate. In \<open>merge\<close> the fetch order
  is the dev.to list followed by the Hacker News list, and that is how \<open>load\<close> calls
  it; in \<open>fetchAll\<close> the inputs are the hits that have a title. The first occurrence
  of every input key is in the output whenever the deduplicated list is not longer
  than the cap of 80.
\<close>

theorem only_first_occurrence_kept:
  "((\<forall>a \<in> set (merge devto hn). find (\<lambda>b. title_key b = title_key a) (devto @ hn) = Some a) \<and>
    (length (dedupe title_key {} (devto @ hn)) \<le> 80 \<longrightarrow>
       (\<forall>x \<in> set (devto @ hn). \<exists>a \<in> set (merge devto hn).
           find (\<lambda>b. title_key b = title_key x) (devto @ hn) = Some a))) \<and>
   (\<forall>out. snd (fetchAll net flt) = Inr out \<longrightarrow>
      (\<forall>a \<in> set out. find (\<lambda>b. objectID b = objectID a) (inputs_v3 net flt) = Some a) \<and>
      (length (dedupe objectID {} (inputs_v3 net flt)) \<le> 80 \<longrightarrow>
         (\<forall>x \<in> set (inputs_v3 net flt). \<exists>a \<in> set out.
             find (\<lambda>b. objectID b = objectID x) (inputs_v3 net flt) = Some a))) \<and>
   ((force \<or> usable (loadCache (storage sa) t0 flt) = None) \<and> flt \<noteq> ''funding'' \<and>
      snd (fetchDevTo vw dnet (cfg_devto (cfg_of flt))) = Inr devto \<and>
      merge devto (snd (fetchHN_v4 vw hnet (cfg_hn (cfg_of flt)))) \<noteq> [] \<longrightarrow>
      allArticles (load_v4 vw dnet hnet t0 t1 flt force sa) =
        merge devto (snd (fetchHN_v4 vw hnet (cfg_hn (cfg_of flt)))))"
proof (intro conjI allI impI ballI)
  fix a assume "a \<in> set (merge devto hn)"
  then show "find (\<lambda>b. title_key b = title_key a) (devto @ hn) = Some a"
    unfolding merge_def by (rule ranked_first)
next
  fix x assume "length (dedupe title_key {} (devto @ hn)) \<le> 80" "x \<in> set (devto @ hn)"
  then show "\<exists>a \<in> set (merge devto hn). find (\<lambda>b. title_key b = title_key x) (devto @ hn) = Some a"
    unfolding merge_def by (rule ranked_first_kept)
next
  fix out a assume o: "snd (fetchAll net flt) = Inr out" and a: "a \<in> set out"
  from a show "find (\<lambda>b. objectID b = objectID a) (inputs_v3 net flt) = Some a"
    unfolding fetchAll_output[OF o] by (rule ranked_first)
next
  fix out x
  assume o: "snd (fetchAll net flt) = Inr out"
    and l: "length (dedupe objectID {} (inputs_v3 net flt)) \<le> 80"
    and x: "x \<in> set (inputs_v3 net flt)"
  from l x show "\<exists>a \<in> set out. find (\<lambda>b. objectID b = objectID x) (inputs_v3 net flt) = Some a"
    unfolding fetchAll_output[OF o] by (rule ranked_first_kept)
next
  assume a: "(force \<or> usable (loadCache (storage sa) t0 flt) = None) \<and> flt \<noteq> ''funding'' \<and>
      snd (fetchDevTo vw dnet (cfg_devto (cfg_of flt))) = Inr devto \<and>
      merge devto (snd (fetchHN_v4 vw hnet (cfg_hn (cfg_of flt)))) \<noteq> []"
  obtain dreqs where d: "fetchDevTo vw dnet (cfg_devto (cfg_of flt)) = (dreqs, Inr devto)"
    using a by (cases "fetchDevTo vw dnet (cfg_devto (cfg_of flt))") simp
  obtain hreqs hn' where h: "fetchHN_v4 vw hnet (cfg_hn (cfg_of flt)) = (hreqs, hn')"
    by (cases "fetchHN_v4 vw hnet (cfg_hn (cfg_of flt))")
  from a have c0: "force \<or> usable (loadCache (storage sa) t0 flt) = None" by simp
  from a h have ne: "merge devto hn' \<noteq> []" and nf: "flt \<noteq> ''funding''" by simp_all
  show "allArticles (load_v4 vw dnet hnet t0 t1 flt force sa) =
        merge devto (snd (fetchHN_v4 vw hnet (cfg_hn (cfg_of flt))))"
    using c0 by (cases force)
      (simp_all add: load_v4_def Let_def begin_load_fields d h ne nf state_fields
         usable_def[of None])
qed

text \<open>
  Claim C9 as stated fails: behind 81 articles of higher score, the first occurrence
  of the scenario's title is not kept.
\<close>

theorem first_occurrence_truncated_counterexample:
  "title_key raises_devto = title_key raises_hn \<and>
   find (\<lambda>b. title_key b = title_key raises_hn) ((crowd @ [raises_devto]) @ [raises_hn])
     = Some raises_devto \<and>
   raises_devto \<notin> set (merge (crowd @ [raises_devto]) [raises_hn])"
proof -
  have k: "title_key raises_devto = ''openai raises 500m''" by (simp add: raises_key)
  have n: "\<forall>b \<in> set crowd. title_key b \<noteq> ''openai raises 500m''"
    using raises_key_not_crowd by (force simp: image_iff)
  then have "find (\<lambda>b. title_key b = ''openai raises 500m'') crowd = None"
    by (simp add: find_None_iff)
  then have f: "find (\<lambda>b. title_key b = ''openai raises 500m'') ((crowd @ [raises_devto]) @ [raises_hn])
                  = Some raises_devto"
    using k by (simp add: find_append_list)
  have "raises_devto \<notin> set crowd" using n k by auto
  then have "raises_devto \<notin> set (take 80 crowd)" by (auto dest: in_set_takeD)
  with f show ?thesis by (simp add: raises_key merge_crowd)
qed

text \<open>
  The theorem of C9 on the scenario: the dev.to article (score 80) is kept, the
  Hacker News one (score 120) is dropped; and on a run of the two-source \<open>load\<close>.
\<close>

theorem only_first_occurrence_kept_witness:
  "merge [raises_devto, chatbot_devto] [raises_hn, agents_hn] = [chatbot_devto, agents_hn, raises_devto] \<and>
   title_key raises_hn = title_key raises_devto \<and>
   find (\<lambda>b. title_key b = title_key raises_devto) ([raises_devto, chatbot_devto] @ [raises_hn, agents_hn])
     = Some raises_devto \<and>
   length (dedupe title_key {} ([raises_devto, chatbot_devto] @ [raises_hn, agents_hn])) \<le> 80 \<and>
   (\<exists>a \<in> set (merge [raises_devto, chatbot_devto] [raises_hn, agents_hn]).
      find (\<lambda>b. title_key b = title_key raises_hn) ([raises_devto, chatbot_devto] @ [raises_hn, agents_hn])
        = Some a) \<and>
   snd (fetchAll (answering [gpt_hit, llm_hit, gpt_hit_again]) ''robotics'') = Inr [llm_hit, gpt_hit] \<and>
   find (\<lambda>b. objectID b = objectID gpt_hit)
     (inputs_v3 (answering [gpt_hit, llm_hit, gpt_hit_again]) ''robotics'') = Some gpt_hit \<and>
   snd (fetchDevTo plain_view (answering [rag_item]) (cfg_devto (cfg_of ''llm'')))
     = Inr [rag_devto] \<and>
   allArticles (load_v4 plain_view (answering [rag_item]) (answering [gpt_hit]) 0 1 ''llm'' True (boot NoItem))
     = [gpt_hn, rag_devto]"
proof -
  let ?net = "answering [gpt_hit, llm_hit, gpt_hit_again]"
  have m: "merge [raises_devto, chatbot_devto] [raises_hn, agents_hn] = [chatbot_devto, agents_hn, raises_devto]"
    by (simp add: run_defs)
  have k: "title_key raises_hn = title_key raises_devto" by (simp add: raises_key)
  have l4: "length (dedupe title_key {} ([raises_devto, chatbot_devto] @ [raises_hn, agents_hn])) \<le> 80"
    by (simp add: run_defs)
  have o3: "snd (fetchAll ?net ''robotics'') = Inr [llm_hit, gpt_hit]" by (simp add: run_defs)
  have d4: "snd (fetchDevTo plain_view (answering [rag_item]) (cfg_devto (cfg_of ''llm'')))
              = Inr [rag_devto]"
    by (simp add: run_defs)
  have h4: "snd (fetchHN_v4 plain_view (answering [gpt_hit]) (cfg_hn (cfg_of ''llm'')))
              = [gpt_hn]"
    by (simp add: run_defs)
  have m4: "merge [rag_devto] [gpt_hn]
              = [gpt_hn, rag_devto]"
    by (simp add: run_defs)
  note inst = only_first_occurrence_kept
    [where devto = "[raises_devto, chatbot_devto]" and hn = "[raises_hn, agents_hn]"
       and net = ?net and flt = "''robotics''"]
  note inst4 = only_first_occurrence_kept
    [where force = True and flt = "''llm''" and vw = plain_view and dnet = "answering [rag_item]"
       and hnet = "answering [gpt_hit]" and devto = "[rag_devto]"
       and sa = "boot NoItem" and ?t0.0 = 0 and ?t1.0 = 1, THEN conjunct2, THEN conjunct2]
  from inst m have
    "find (\<lambda>b. title_key b = title_key raises_devto) ([raises_devto, chatbot_devto] @ [raises_hn, agents_hn])
       = Some raises_devto"
    by simp
  moreover from inst l4 have
    "\<exists>a \<in> set (merge [raises_devto, chatbot_devto] [raises_hn, agents_hn]).
      find (\<lambda>b. title_key b = title_key raises_hn) ([raises_devto, chatbot_devto] @ [raises_hn, agents_hn])
        = Some a"
    by simp
  moreover from inst o3 have
    "find (\<lambda>b. objectID b = objectID gpt_hit) (inputs_v3 ?net ''robotics'') = Some gpt_hit"
    by simp
  moreover from inst4 d4 h4 m4 have
    "allArticles (load_v4 plain_view (answering [rag_item]) (answering [gpt_hit]) 0 1 ''llm'' True (boot NoItem))
       = [gpt_hn, rag_devto]"
    by simp
  ultimately show ?thesis using m k l4 o3 d4 by simp
qed



end
